theory Spec2Isabelle
  imports Main
begin

section \<open>JavaScript strings and values\<close>

text \<open>
  The migration script is JavaScript. A string is modelled as the list of the bytes of
  its UTF-8 encoding (an ASCII character is one \<open>char\<close>, any other character two to four),
  numbers that the script reads from the WordPress JSON (ids, counts) as \<open>int\<close> or
  \<open>nat\<close>, an exception as a value of \<open>js_error\<close> on the left of a sum, and the lines
  written with \<open>console.log\<close> as a list of strings that a function returns beside its
  value. The script compares, splits and joins its strings at ASCII texts only, which
  are the same in both encodings.
\<close>

datatype js_error = TypeError string

type_synonym 'a logged = "string list \<times> 'a"

text \<open>\<open>String.prototype.startsWith\<close> and \<open>String.prototype.includes\<close>.\<close>

definition startsWith :: "string \<Rightarrow> string \<Rightarrow> bool" where
  "startsWith p s = (take (length p) s = p)"

fun js_includes :: "string \<Rightarrow> string \<Rightarrow> bool" where
  "js_includes sub [] = (sub = [])"
| "js_includes sub (c # cs) = (startsWith sub (c # cs) \<or> js_includes sub cs)"

text \<open>
  \<open>s.split(sep)\<close> for a non-empty separator: the pieces between the successive,
  non-overlapping occurrences of \<open>sep\<close>, found from the left. \<open>skip\<close> counts the
  characters of an occurrence that are still to be passed over, \<open>acc\<close> is the current
  piece, reversed.
\<close>

fun split_from :: "string \<Rightarrow> nat \<Rightarrow> string \<Rightarrow> string \<Rightarrow> string list" where
  "split_from sep skip acc [] = [rev acc]"
| "split_from sep (Suc k) acc (c # cs) = split_from sep k acc cs"
| "split_from sep 0 acc (c # cs) =
     (if startsWith sep (c # cs)
      then rev acc # split_from sep (length sep - 1) [] cs
      else split_from sep 0 (c # acc) cs)"

definition js_split :: "string \<Rightarrow> string \<Rightarrow> string list" where
  "js_split sep s = split_from sep 0 [] s"

text \<open>\<open>Array.prototype.join\<close> on an array of strings.\<close>

fun js_join :: "string \<Rightarrow> string list \<Rightarrow> string" where
  "js_join sep [] = []"
| "js_join sep [x] = x"
| "js_join sep (x # y # ys) = x @ sep @ js_join sep (y # ys)"

text \<open>
  White space as \<open>\s\<close> and \<open>trim\<close> see it: the characters of ECMAScript's
  \<open>WhiteSpace\<close> and \<open>LineTerminator\<close>, each given by its UTF-8 bytes. These are tab, line
  feed, vertical tab, form feed, carriage return and space; the no-break space U+00A0;
  U+1680, U+2000 to U+200A, U+202F, U+205F and U+3000 of the class Zs; the line and
  paragraph separators U+2028 and U+2029; and U+FEFF. None of the encodings is the
  beginning of another.
\<close>

definition white_space :: "string list" where
  "white_space =
     [[CHR 0x09], [CHR 0x0A], [CHR 0x0B], [CHR 0x0C], [CHR 0x0D], [CHR 0x20],
      [CHR 0xC2, CHR 0xA0],
      [CHR 0xE1, CHR 0x9A, CHR 0x80],
      [CHR 0xE2, CHR 0x80, CHR 0x80], [CHR 0xE2, CHR 0x80, CHR 0x81],
      [CHR 0xE2, CHR 0x80, CHR 0x82], [CHR 0xE2, CHR 0x80, CHR 0x83],
      [CHR 0xE2, CHR 0x80, CHR 0x84], [CHR 0xE2, CHR 0x80, CHR 0x85],
      [CHR 0xE2, CHR 0x80, CHR 0x86], [CHR 0xE2, CHR 0x80, CHR 0x87],
      [CHR 0xE2, CHR 0x80, CHR 0x88], [CHR 0xE2, CHR 0x80, CHR 0x89],
      [CHR 0xE2, CHR 0x80, CHR 0x8A],
      [CHR 0xE2, CHR 0x80, CHR 0xA8], [CHR 0xE2, CHR 0x80, CHR 0xA9],
      [CHR 0xE2, CHR 0x80, CHR 0xAF],
      [CHR 0xE2, CHR 0x81, CHR 0x9F],
      [CHR 0xE3, CHR 0x80, CHR 0x80],
      [CHR 0xEF, CHR 0xBB, CHR 0xBF]]"

text \<open>
  The number of bytes of the white-space character that a text begins with, 0 when it
  begins with none; \<open>ws\<close> lists the encodings. \<open>strip_leading\<close> removes the white
  space a text begins with (\<open>skip\<close> counts the bytes of a character still to be dropped).
  \<open>trim\<close> does so at both ends: the text ends with a white-space character when its
  reverse begins with the reversed encoding, since the first byte of an encoding is never
  a byte inside another character.
\<close>

definition space_prefix :: "string list \<Rightarrow> string \<Rightarrow> nat" where
  "space_prefix ws s = (case find (\<lambda>w. startsWith w s) ws of None \<Rightarrow> 0 | Some w \<Rightarrow> length w)"

fun strip_leading :: "string list \<Rightarrow> nat \<Rightarrow> string \<Rightarrow> string" where
  "strip_leading ws skip [] = []"
| "strip_leading ws (Suc k) (c # cs) = strip_leading ws k cs"
| "strip_leading ws 0 (c # cs) =
     (case space_prefix ws (c # cs) of
        0 \<Rightarrow> c # cs
      | Suc n \<Rightarrow> strip_leading ws n cs)"

definition trim :: "string \<Rightarrow> string" where
  "trim s = rev (strip_leading (map rev white_space) 0 (rev (strip_leading white_space 0 s)))"

text \<open>A number inside a template literal: the decimal numeral of an integer.\<close>

fun string_of_nat :: "nat \<Rightarrow> string" where
  "string_of_nat n =
     (if n < 10 then [''0123456789'' ! n]
      else string_of_nat (n div 10) @ [''0123456789'' ! (n mod 10)])"

definition string_of_int :: "int \<Rightarrow> string" where
  "string_of_int i = (if i < 0 then CHR ''-'' # string_of_nat (nat (- i)) else string_of_nat (nat i))"

section \<open>The WordPress data\<close>

text \<open>
  The records of the REST collections, with the fields the script reads. A tag or a
  category has an id and a name, a media record an id, the URL of its file, its alt text
  and the post it is attached to.
\<close>

record wp_label =
  label_id :: int
  name :: string

record wp_media =
  media_id :: int
  source_url :: string
  alt_text :: string
  post :: int

record raw_post =
  wp_id :: int
  wp_type :: string
  title_rendered :: string
  wp_slug :: string
  content_rendered :: string
  date_gmt :: string
  featured_media :: int
  wp_tags :: "int list"
  wp_categories :: "int list"

text \<open>
  An element of \<open>apiData\<close>: the result of fetching one endpoint, tagged with the
  endpoint's name. The JSON of an endpoint has the shape of that endpoint, so the data
  of a result is one of three kinds of collection.
\<close>

datatype wp_data = PostData "raw_post list" | LabelData "wp_label list" | MediaData "wp_media list"

record api_result =
  success :: bool
  endpoint :: string
  data :: wp_data

text \<open>
  The records of a collection read as labels or as media. A collection of another
  endpoint holds no record with a \<open>name\<close> (the filter of \<open>getPostLabels\<close> keeps none of
  them); \<open>getApiDataType\<close> selects by endpoint name, and \<open>migrateContent\<close> stores under
  \<open>media\<close> only what the media endpoint returned.
\<close>

fun label_records :: "wp_data \<Rightarrow> wp_label list" where
  "label_records (LabelData ls) = ls"
| "label_records _ = []"

fun media_records :: "wp_data \<Rightarrow> wp_media list" where
  "media_records (MediaData ms) = ms"
| "media_records _ = []"

section \<open>The post normalizer\<close>

text \<open>
  \<open>getApiDataType\<close>: the successful results of one endpoint. It writes a line when
  there is none.
\<close>

definition getApiDataType :: "api_result list \<Rightarrow> string \<Rightarrow> api_result list logged" where
  "getApiDataType apiData resourceName =
     (let apiType = filter (\<lambda>obj. endpoint obj = resourceName \<and> success obj) apiData
      in if length apiType = 0
         then ([''No data found for resource type: '' @ resourceName], [])
         else ([], apiType))"

text \<open>
  \<open>getPostLabels\<close>. The loop over the ids of the post: \<open>labelName\<close> is the list of the
  records with that id and a truthy (non-empty) name; its first element gives the label,
  and an id with no such record gives a warning and no label.
\<close>

fun labels_loop :: "wp_label list \<Rightarrow> string \<Rightarrow> int list \<Rightarrow> string list logged" where
  "labels_loop tagData labelType [] = ([], [])"
| "labels_loop tagData labelType (labelId # rest) =
     (let labelName = filter (\<lambda>obj. label_id obj = labelId \<and> name obj \<noteq> []) tagData;
          (out, labels) = labels_loop tagData labelType rest
      in case labelName of
           l # _ \<Rightarrow> (out, name l # labels)
         | [] \<Rightarrow> ((''Warning: '' @ labelType @ '' with ID '' @ string_of_int labelId @ '' not found'') # out,
                  labels))"

definition getPostLabels :: "api_result list \<Rightarrow> int list \<Rightarrow> string \<Rightarrow> string list logged" where
  "getPostLabels apiData postItems labelType =
     (let (out, found) = getApiDataType apiData labelType
      in case found of
           [] \<Rightarrow> (out @ [''Warning: No '' @ labelType @ '' data found''], [])
         | apiTag # _ \<Rightarrow>
             (let (out', labels) = labels_loop (label_records (data apiTag)) labelType postItems
              in (out @ out', labels)))"

text \<open>
  The resource index as the specification words it: the name an id resolves to is the
  name of the first record of the collection that has this id and a name.
\<close>

definition resolve_label :: "wp_label list \<Rightarrow> int \<Rightarrow> string option" where
  "resolve_label tagData labelId =
     map_option name (find (\<lambda>obj. label_id obj = labelId \<and> name obj \<noteq> []) tagData)"

text \<open>
  \<open>a || b\<close> on strings: the empty string is falsy.
\<close>

definition or_else :: "string \<Rightarrow> string \<Rightarrow> string" where
  "or_else a b = (if a = [] then b else a)"

subsection \<open>The image pattern\<close>

text \<open>
  \<open>imageRegex\<close> is \<^verbatim>\<open>/<img\s[^>]*?src\s*=\s*['\"]([^'\"]*?)['\"][^>]*?>/g\<close>.
  \<open>match_src\<close> matches the pattern from \<open>src\<close> on at the start of a string: greedy
  white space around \<open>=\<close>, a quote, the capture up to the next quote, and the rest of
  the tag up to the first \<open>>\<close>. None of these steps has a second way to match, so the
  only choice of the whole pattern is how far the lazy \<^verbatim>\<open>[^>]*?\<close> before \<open>src\<close> runs
  (\<open>skip_to_src\<close>: as short as possible). The result is the capture and the text after
  the match. The classes \<^verbatim>\<open>[^>]\<close> and \<^verbatim>\<open>[^'\"]\<close> exclude ASCII characters only, so
  taking a byte at a time is taking a character at a time.
\<close>

definition is_quote :: "char \<Rightarrow> bool" where
  "is_quote c = (c = CHR 0x22 \<or> c = CHR 0x27)"

definition match_src :: "string \<Rightarrow> (string \<times> string) option" where
  "match_src s =
     (if startsWith ''src'' s then
        (case strip_leading white_space 0 (drop 3 s) of
           [] \<Rightarrow> None
         | e # s1 \<Rightarrow>
             if e = CHR ''='' then
               (case strip_leading white_space 0 s1 of
                  [] \<Rightarrow> None
                | q # s2 \<Rightarrow>
                    if is_quote q then
                      (case dropWhile (\<lambda>c. \<not> is_quote c) s2 of
                         [] \<Rightarrow> None
                       | q' # s3 \<Rightarrow>
                           (case dropWhile (\<lambda>c. c \<noteq> CHR ''>'') s3 of
                              [] \<Rightarrow> None
                            | g # s4 \<Rightarrow> Some (takeWhile (\<lambda>c. \<not> is_quote c) s2, s4)))
                    else None)
             else None)
      else None)"

fun skip_to_src :: "string \<Rightarrow> (string \<times> string) option" where
  "skip_to_src [] = None"
| "skip_to_src (c # cs) =
     (case match_src (c # cs) of
        Some r \<Rightarrow> Some r
      | None \<Rightarrow> if c = CHR ''>'' then None else skip_to_src cs)"

text \<open>
  A match object of \<open>imageRegex.exec\<close>: the matched text (\<open>foundImage[0]\<close>), the
  capture (\<open>foundImage[1]\<close>) and the offset of the match in the text
  (\<open>foundImage.index\<close>; the model counts it in bytes).
\<close>

record regex_match =
  matched :: string
  capture :: string
  index :: nat

definition match_img :: "string \<Rightarrow> (string \<times> string) option" where
  "match_img s =
     (if startsWith ''<img'' s then
        (case space_prefix white_space (drop 4 s) of
           0 \<Rightarrow> None
         | Suc n \<Rightarrow>
             (case skip_to_src (drop (4 + Suc n) s) of
                None \<Rightarrow> None
              | Some (cap, rest) \<Rightarrow> Some (take (length s - length rest) s, cap)))
      else None)"

text \<open>
  The \<open>while (foundImage = imageRegex.exec(...))\<close> loop: the global pattern looks for
  the leftmost match from \<open>lastIndex\<close> on and leaves \<open>lastIndex\<close> behind the match.
  \<open>pos\<close> is the offset of the text still to be read and \<open>skip\<close> the number of
  characters of the last match still to be passed over.
\<close>

fun exec_loop :: "nat \<Rightarrow> nat \<Rightarrow> string \<Rightarrow> regex_match list" where
  "exec_loop pos skip [] = []"
| "exec_loop pos (Suc k) (c # cs) = exec_loop (Suc pos) k cs"
| "exec_loop pos 0 (c # cs) =
     (case match_img (c # cs) of
        None \<Rightarrow> exec_loop (Suc pos) 0 cs
      | Some (m0, cap) \<Rightarrow>
          \<lparr>matched = m0, capture = cap, index = pos\<rparr> # exec_loop (Suc pos) (length m0 - 1) cs)"

subsection \<open>Images of a post\<close>

record image =
  link :: string
  description :: string
  title :: string
  mediaId :: "int option"
  postId :: int
  featured :: bool

text \<open>
  The body of the \<open>while\<close> loop of \<open>getPostBodyImages\<close>: the alt text is the text
  between the first \<^verbatim>\<open>alt="\<close> of the tag and the next double quote. A text that includes
  the separator splits into two pieces at least, so the last case is never taken.
\<close>

definition alt_marker :: string where
  "alt_marker = ''alt='' @ [CHR 0x22]"

definition image_alt :: "int \<Rightarrow> string \<Rightarrow> string" where
  "image_alt pid m0 =
     (let alt = ''Image from post '' @ string_of_int pid
      in if js_includes alt_marker m0
         then (case js_split alt_marker m0 of
                 _ # a # _ \<Rightarrow> or_else (hd (js_split [CHR 0x22] a)) alt
               | _ \<Rightarrow> alt)
         else alt)"

definition body_image :: "int \<Rightarrow> regex_match \<Rightarrow> image" where
  "body_image pid foundImage =
     \<lparr>link = capture foundImage,
      description = image_alt pid (matched foundImage),
      title = image_alt pid (matched foundImage),
      mediaId = None,
      postId = pid,
      featured = False\<rparr>"

text \<open>
  \<open>getPostBodyImages\<close>, first half: the featured image. \<open>getApiDataType('media')[0]\<close>
  is \<open>undefined\<close> when no media result succeeded, and reading its \<open>data\<close> throws.
\<close>

definition featured_image :: "raw_post \<Rightarrow> wp_media \<Rightarrow> image" where
  "featured_image postData mediaObj =
     \<lparr>link = source_url mediaObj,
      description = or_else (alt_text mediaObj)
        (''Featured image for post '' @ string_of_int (wp_id postData)),
      title = or_else (alt_text mediaObj)
        (''Featured image for post '' @ string_of_int (wp_id postData)),
      mediaId = Some (media_id mediaObj),
      postId = post mediaObj,
      featured = True\<rparr>"

definition featured_images :: "api_result list \<Rightarrow> raw_post \<Rightarrow> js_error + image list logged" where
  "featured_images apiData postData =
     (if featured_media postData > 0 then
        (let (out, found) = getApiDataType apiData ''media''
         in case found of
              [] \<Rightarrow> Inl (TypeError ''Cannot read properties of undefined (reading data)'')
            | mediaData # _ \<Rightarrow>
                (case filter (\<lambda>obj. media_id obj = featured_media postData)
                        (media_records (data mediaData)) of
                   mediaObj # _ \<Rightarrow> Inr (out, [featured_image postData mediaObj])
                 | [] \<Rightarrow>
                     Inr (out @ [''Warning: Featured media with ID ''
                                 @ string_of_int (featured_media postData)
                                 @ '' not found for post: '' @ wp_slug postData], [])))
      else Inr ([], []))"

definition body_images :: "raw_post \<Rightarrow> image list" where
  "body_images postData =
     map (body_image (wp_id postData)) (exec_loop 0 0 (content_rendered postData))"

definition getPostBodyImages :: "api_result list \<Rightarrow> raw_post \<Rightarrow> js_error + image list logged" where
  "getPostBodyImages apiData postData =
     (case featured_images apiData postData of
        Inl e \<Rightarrow> Inl e
      | Inr (out, bodyImages) \<Rightarrow> Inr (out, bodyImages @ body_images postData))"

subsection \<open>Normalized posts\<close>

text \<open>
  \<open>fieldData\<close>, the object that the loop of \<open>mapData\<close> builds for one post. Its
  properties are evaluated in the order of the literal; an exception of
  \<open>getPostBodyImages\<close> leaves \<open>mapData\<close>.
\<close>

record wp_post =
  id' :: int
  type :: string
  postTitle :: string
  slug :: string
  content :: string
  publishDate :: string
  featuredImage :: int
  tags :: "string list"
  categories :: "string list"
  contentImages :: "image list"

definition fieldData :: "api_result list \<Rightarrow> raw_post \<Rightarrow> js_error + wp_post logged" where
  "fieldData apiData postData =
     (let (out1, tagNames) = getPostLabels apiData (wp_tags postData) ''tags'';
          (out2, categoryNames) = getPostLabels apiData (wp_categories postData) ''categories''
      in case getPostBodyImages apiData postData of
           Inl e \<Rightarrow> Inl e
         | Inr (out3, images) \<Rightarrow>
             Inr (out1 @ out2 @ out3,
               \<lparr>id' = wp_id postData,
                type = wp_type postData,
                postTitle = title_rendered postData,
                slug = wp_slug postData,
                content = content_rendered postData,
                publishDate = date_gmt postData @ ''+00:00'',
                featuredImage = featured_media postData,
                tags = tagNames,
                categories = categoryNames,
                contentImages = images\<rparr>))"

text \<open>
  \<open>mapData\<close>: the posts result is looked up, the run ends with \<open>process.exit\<close> when
  there is none (code 1) or when it is empty (code 0), and every post is normalized in
  turn.
\<close>

datatype stop = Throw js_error | ProcessExit nat

fun post_records :: "wp_data \<Rightarrow> raw_post list" where
  "post_records (PostData ps) = ps"
| "post_records _ = []"

fun map_posts :: "api_result list \<Rightarrow> raw_post list \<Rightarrow> js_error + wp_post list logged" where
  "map_posts apiData [] = Inr ([], [])"
| "map_posts apiData (postData # rest) =
     (case fieldData apiData postData of
        Inl e \<Rightarrow> Inl e
      | Inr (out, p) \<Rightarrow>
          (case map_posts apiData rest of
             Inl e \<Rightarrow> Inl e
           | Inr (out', ps) \<Rightarrow> Inr (out @ out', p # ps)))"

definition mapData :: "api_result list \<Rightarrow> stop + wp_post list logged" where
  "mapData apiData =
     (case filter (\<lambda>item. endpoint item = ''posts'' \<and> success item) apiData of
        [] \<Rightarrow> Inl (ProcessExit 1)
      | apiPosts # _ \<Rightarrow>
          if length (post_records (data apiPosts)) = 0 then Inl (ProcessExit 0)
          else (case map_posts apiData (post_records (data apiPosts)) of
                  Inl e \<Rightarrow> Inl (Throw e)
                | Inr r \<Rightarrow> Inr r))"

text \<open>
  The media index as the specification words it: the record a featured-media id
  resolves to is the first record with this id in the fetched media collection, if
  there is a collection and it has one.
\<close>

definition resolve_media :: "api_result list \<Rightarrow> int \<Rightarrow> wp_media option" where
  "resolve_media apiData mediaId' =
     (case filter (\<lambda>obj. endpoint obj = ''media'' \<and> success obj) apiData of
        [] \<Rightarrow> None
      | mediaData # _ \<Rightarrow> find (\<lambda>obj. media_id obj = mediaId') (media_records (data mediaData)))"

section \<open>The paginated fetcher\<close>









section \<open>The asset publisher\<close>

text \<open>
  \<open>encodeURI\<close>: the characters it leaves alone are the letters, the digits and
  \<^verbatim>\<open>; , / ? : @ & = + $ - _ . ! ~ * ' ( ) #\<close>; every other character becomes \<open>%XX\<close> for each
  byte of its UTF-8 encoding (for a text of bytes: for each of its characters).
\<close>

definition uri_unescaped :: "char \<Rightarrow> bool" where
  "uri_unescaped c =
     (c \<in> set (''ABCDEFGHIJKLMNOPQRSTUVWXYZabcdefghijklmnopqrstuvwxyz0123456789''
               @ '';,/?:@&=+$-_.!~*()#'' @ [CHR 0x27]))"

definition hex_digit :: "nat \<Rightarrow> char" where
  "hex_digit n = ''0123456789ABCDEF'' ! (n mod 16)"

definition encodeURI :: "string \<Rightarrow> string" where
  "encodeURI s =
     concat (map (\<lambda>c. if uri_unescaped c then [c]
                       else [CHR ''%'', hex_digit (of_char c div 16), hex_digit (of_char c)]) s)"

text \<open>
  An asset request. The script writes every field under the one locale \<open>en-US\<close>; the
  model keeps the value of that locale.
\<close>

record asset_file =
  contentType :: string
  fileName :: string
  upload :: string

record asset_fields =
  asset_title :: string
  asset_description :: string
  file' :: asset_file

text \<open>
  \<open>assetObj\<close>. The title and the description of an image are strings in every image
  \<open>getPostBodyImages\<close> builds, so the \<open>typeof\<close> tests of the script hold and the
  generated default titles are never used.
\<close>

definition assetObj :: "image \<Rightarrow> asset_fields" where
  "assetObj contentImage =
     \<lparr>asset_title = title contentImage,
      asset_description = description contentImage,
      file' = \<lparr>contentType = ''image/jpeg'',
              fileName = last (js_split ''/'' (link contentImage)),
              upload = encodeURI (link contentImage)\<rparr>\<rparr>"

text \<open>The two nested loops of \<open>buildContentfulAssets\<close>, pushing onto \<open>assetPromises\<close>.\<close>

fun images_loop :: "image list \<Rightarrow> asset_fields list \<Rightarrow> asset_fields list" where
  "images_loop [] assetPromises = assetPromises"
| "images_loop (contentImage # rest) assetPromises =
     images_loop rest (assetPromises @ [assetObj contentImage])"

fun posts_loop :: "wp_post list \<Rightarrow> asset_fields list \<Rightarrow> asset_fields list" where
  "posts_loop [] assetPromises = assetPromises"
| "posts_loop (wpPost # rest) assetPromises =
     posts_loop rest (images_loop (contentImages wpPost) assetPromises)"

definition buildContentfulAssets :: "wp_post list \<Rightarrow> asset_fields list" where
  "buildContentfulAssets posts = posts_loop posts []"

text \<open>
  The file name as the specification words it: the part of the URL after its last
  \<open>/\<close>.
\<close>

definition after_last_slash :: "string \<Rightarrow> string" where
  "after_last_slash url = rev (takeWhile (\<lambda>c. c \<noteq> CHR ''/'') (rev url))"

text \<open>
  The destination (the Contentful environment) is outside the repository. Each of its
  operations is a promise that is fulfilled with a value or rejected (\<open>None\<close>); the
  answer may differ from one item to the next, so every operation takes the position of
  the item it is called for. How long the calls of an upload take is the destination's
  as well.
\<close>

record cf_asset =
  sys_id :: string
  fields' :: asset_fields

record asset_ref =
  assetId :: string
  assetFileName :: string

text \<open>An entry payload: the object \<open>postFields\<close>, from field names to values.\<close>

datatype rich_node = Node string "rich_node list" | TextNode string

datatype js_value =
    VNum int
  | VStr string
  | VArr "string list"
  | VImages "image list"
  | VRich rich_node
  | VLink string

type_synonym post_fields = "string \<rightharpoonup> js_value"

record 'e environment =
  createAsset :: "nat \<Rightarrow> asset_fields \<Rightarrow> cf_asset option"
  processForAllLocales :: "nat \<Rightarrow> cf_asset \<Rightarrow> cf_asset option"
  publish :: "nat \<Rightarrow> cf_asset \<Rightarrow> cf_asset option"
  upload_time :: "nat \<Rightarrow> nat"
  createEntry :: "nat \<Rightarrow> post_fields \<Rightarrow> 'e option"
  publishEntry :: "nat \<Rightarrow> 'e \<Rightarrow> 'e option"

text \<open>
  One promise of \<open>createContentfulAssets\<close>: create, process, publish. A rejection at
  any of the three is caught and the promise resolves with \<open>null\<close>.
\<close>

definition upload_asset :: "'e environment \<Rightarrow> nat \<Rightarrow> asset_fields \<Rightarrow> cf_asset option" where
  "upload_asset env i asset =
     (case createAsset env i asset of
        None \<Rightarrow> None
      | Some a \<Rightarrow>
          (case processForAllLocales env i a of
             None \<Rightarrow> None
           | Some a' \<Rightarrow> publish env i a'))"

text \<open>The entry of \<open>assets\<close> that a published asset leaves.\<close>

definition asset_ref_of :: "cf_asset \<Rightarrow> asset_ref" where
  "asset_ref_of a = \<lparr>assetId = sys_id a, assetFileName = fileName (file' (fields' a))\<rparr>"

text \<open>
  \<open>createContentfulAssets\<close>. The timer of the upload at position \<open>index\<close> fires after
  \<open>1000 + 5000 * index\<close> milliseconds, and the calls of the upload take the time the
  destination needs for them (\<open>upload_time\<close>, in milliseconds): \<open>uploads\<close> pairs the
  outcome of each upload with the time at which it settles. \<open>Promise.all\<close> gives the
  outcomes in the order of the requests. A published asset is pushed onto \<open>assets\<close> when
  its \<open>publish\<close> resolves, so \<open>assets\<close> grows in the order in which the uploads
  finish; uploads that finish in the same millisecond are taken in the order of their
  timers.
\<close>

definition uploads :: "'e environment \<Rightarrow> asset_fields list \<Rightarrow> (nat \<times> cf_asset option) list" where
  "uploads env promises =
     map (\<lambda>(index, asset).
            (1000 + 5000 * index + upload_time env index, upload_asset env index asset))
         (List.enumerate 0 promises)"

definition published :: "'e environment \<Rightarrow> asset_fields list \<Rightarrow> (nat \<times> cf_asset) list" where
  "published env promises =
     List.map_filter (\<lambda>(settled, outcome). map_option (Pair settled) outcome) (uploads env promises)"

definition createContentfulAssets ::
  "'e environment \<Rightarrow> asset_fields list \<Rightarrow> asset_ref list \<Rightarrow> cf_asset option list \<times> asset_ref list" where
  "createContentfulAssets env promises assets =
     (map snd (uploads env promises),
      assets @ map (\<lambda>(settled, asset). asset_ref_of asset) (sort_key fst (published env promises)))"

section \<open>The content converter\<close>

text \<open>
  \<open>xs[0]\<close>: the first element, \<open>undefined\<close> for an empty array.
\<close>

definition first_of :: "'a list \<Rightarrow> 'a option" where
  "first_of xs = (case xs of [] \<Rightarrow> None | x # _ \<Rightarrow> Some x)"

text \<open>
  The HTML-to-markdown conversion is the library \<open>turndown\<close>, which is outside the
  repository; the script registers the rule \<open>replaceWordPressImages\<close> with it, and the
  library calls the rule for every \<open>img\<close> element. The library is a parameter of the
  model: a function of the rule and of the HTML text that returns the markdown or throws
  what the rule throws. The rule sees the element through its attributes \<open>alt\<close> and
  \<open>src\<close> (\<open>getAttribute\<close> gives \<open>null\<close> for a missing one).
\<close>

type_synonym img_rule = "string option \<Rightarrow> string option \<Rightarrow> js_error + string"

type_synonym turndown = "img_rule \<Rightarrow> string \<Rightarrow> js_error + string"

text \<open>The template literal of the rule: \<open>null\<close> and \<open>undefined\<close> print as these words.\<close>

definition markdown_image :: "string option \<Rightarrow> string option \<Rightarrow> string" where
  "markdown_image alt assetUrl =
     ''!['' @ (case alt of None \<Rightarrow> ''null'' | Some a \<Rightarrow> a) @ '']('' @
     (case assetUrl of None \<Rightarrow> ''undefined'' | Some u \<Rightarrow> u) @ '')''"

text \<open>
  The rule \<open>replaceWordPressImages\<close> over \<open>contentfulData.assets\<close>, the URLs of the
  published assets. The callback of \<open>filter\<close> runs once for each asset, reads the
  \<open>src\<close> of the element there, and keeps an asset by returning it (the empty text is
  falsy).
\<close>

definition replaceWordPressImages :: "string list \<Rightarrow> img_rule" where
  "replaceWordPressImages assets alt src =
     (case assets of
        [] \<Rightarrow> Inr (markdown_image alt None)
      | _ # _ \<Rightarrow>
          (case src of
             None \<Rightarrow> Inl (TypeError ''Cannot read properties of null (reading split)'')
           | Some u \<Rightarrow>
               Inr (markdown_image alt
                      (first_of (filter (\<lambda>asset. last (js_split ''/'' asset) = last (js_split ''/'' u)
                                                 \<and> asset \<noteq> []) assets)))))"

text \<open>
  The replacement \<^verbatim>\<open>htmlContent.replace(/!\[.*?\]\(undefined\)/g, '')\<close> of
  \<open>convertToRichText\<close>. \<open>until_undefined\<close> matches the lazy \<^verbatim>\<open>.*?\<close> (any characters
  but the line terminators: line feed, carriage return, U+2028, U+2029) and the closing
  \<^verbatim>\<open>](undefined)\<close>, and returns the text after the match; \<open>strip_loop\<close> removes the matches from the left, \<open>skip\<close> counting the
  characters of a match still to be dropped.
\<close>

definition line_terminators :: "string list" where
  "line_terminators =
     [[CHR 0x0A], [CHR 0x0D], [CHR 0xE2, CHR 0x80, CHR 0xA8], [CHR 0xE2, CHR 0x80, CHR 0xA9]]"

fun until_undefined :: "string \<Rightarrow> string option" where
  "until_undefined [] = None"
| "until_undefined (c # cs) =
     (if startsWith ''](undefined)'' (c # cs) then Some (drop 12 (c # cs))
      else if list_ex (\<lambda>t. startsWith t (c # cs)) line_terminators then None
      else until_undefined cs)"

fun strip_loop :: "nat \<Rightarrow> string \<Rightarrow> string" where
  "strip_loop skip [] = []"
| "strip_loop (Suc k) (c # cs) = strip_loop k cs"
| "strip_loop 0 (c # cs) =
     (if startsWith ''!['' (c # cs) then
        (case until_undefined (drop 2 (c # cs)) of
           None \<Rightarrow> c # strip_loop 0 cs
         | Some rest \<Rightarrow> strip_loop (length cs - length rest) cs)
      else c # strip_loop 0 cs)"

definition strip_undefined :: "string \<Rightarrow> string" where
  "strip_undefined htmlContent = strip_loop 0 htmlContent"

text \<open>
  The nodes of a RichText document: a node type with its content, or a text node with
  its value. The fields \<open>data\<close> and \<open>marks\<close> are empty in every node the script builds.
  \<open>rich_line\<close> is the chain of tests on \<open>trimmedLine\<close> in the loop of
  \<open>convertToRichText\<close>.
\<close>

definition rich_line :: "string \<Rightarrow> rich_node option" where
  "rich_line trimmedLine =
     (if startsWith ''# '' trimmedLine then
        Some (Node ''heading-1'' [TextNode (drop 2 trimmedLine)])
      else if startsWith ''## '' trimmedLine then
        Some (Node ''heading-2'' [TextNode (drop 3 trimmedLine)])
      else if startsWith ''### '' trimmedLine then
        Some (Node ''heading-3'' [TextNode (drop 4 trimmedLine)])
      else if startsWith ''> '' trimmedLine then
        Some (Node ''blockquote'' [Node ''paragraph'' [TextNode (drop 2 trimmedLine)]])
      else if length trimmedLine > 0 then
        Some (Node ''paragraph'' [TextNode trimmedLine])
      else None)"

definition richTextContent :: "string \<Rightarrow> rich_node list" where
  "richTextContent markdown =
     List.map_filter (\<lambda>line. rich_line (trim line))
       (filter (\<lambda>line. length (trim line) > 0) (js_split [CHR 0x0A] markdown))"

definition convertToRichText :: "turndown \<Rightarrow> string list \<Rightarrow> string \<Rightarrow> js_error + rich_node" where
  "convertToRichText td assetUrls htmlContent =
     (let cleanContent = strip_undefined htmlContent
      in case td (replaceWordPressImages assetUrls) cleanContent of
           Inl e \<Rightarrow> Inl e
         | Inr markdown \<Rightarrow> Inr (Node ''document'' (richTextContent markdown)))"

section \<open>The entry publisher\<close>

record config =
  contentFormat :: string

text \<open>\<open>Object.entries(post)\<close>: the properties in the order \<open>mapData\<close> wrote them.\<close>

definition post_entries :: "wp_post \<Rightarrow> (string \<times> js_value) list" where
  "post_entries p =
     [(''id'', VNum (id' p)),
      (''type'', VStr (type p)),
      (''postTitle'', VStr (postTitle p)),
      (''slug'', VStr (slug p)),
      (''content'', VStr (content p)),
      (''publishDate'', VStr (publishDate p)),
      (''featuredImage'', VNum (featuredImage p)),
      (''tags'', VArr (tags p)),
      (''categories'', VArr (categories p)),
      (''contentImages'', VImages (contentImages p))]"

text \<open>
  The steps of the inner loop of \<open>createContentfulPosts\<close> on one property. The content
  is converted as the configuration says; an array of labels is joined; the comparisons
  \<open>postValue > 0\<close> and \<open>postValue === 0\<close> are those of a number.
\<close>

fun convert_content :: "config \<Rightarrow> turndown \<Rightarrow> string list \<Rightarrow> js_value \<Rightarrow> js_error + js_value" where
  "convert_content cfg td assetUrls (VStr html) =
     (if contentFormat cfg = ''richtext''
      then (case convertToRichText td assetUrls html of Inl e \<Rightarrow> Inl e | Inr doc \<Rightarrow> Inr (VRich doc))
      else (case td (replaceWordPressImages assetUrls) html of Inl e \<Rightarrow> Inl e | Inr md \<Rightarrow> Inr (VStr md)))"
| "convert_content cfg td assetUrls v = Inr v"

fun join_labels :: "js_value \<Rightarrow> js_value" where
  "join_labels (VArr xs) = VStr (js_join '', '' xs)"
| "join_labels v = v"

fun greater_zero :: "js_value \<Rightarrow> bool" where
  "greater_zero (VNum n) = (n > 0)"
| "greater_zero v = False"

fun is_zero :: "js_value \<Rightarrow> bool" where
  "is_zero (VNum n) = (n = 0)"
| "is_zero v = False"

definition keysToSkip :: "string list" where
  "keysToSkip = [''id'', ''type'', ''contentImages'']"

text \<open>
  The link to the featured asset. The callback of \<open>filter\<close> reads
  \<open>post.contentImages[0].link\<close> for each asset, which throws when the post has no
  image; \<open>assetObj.assetId\<close> throws when no asset has the file name.
\<close>

definition featured_link :: "asset_ref list \<Rightarrow> wp_post \<Rightarrow> js_error + js_value" where
  "featured_link assets p =
     (case assets of
        [] \<Rightarrow> Inl (TypeError ''Cannot read properties of undefined (reading assetId)'')
      | _ # _ \<Rightarrow>
          (case first_of (contentImages p) of
             None \<Rightarrow> Inl (TypeError ''Cannot read properties of undefined (reading link)'')
           | Some img \<Rightarrow>
               (case first_of (filter (\<lambda>asset. assetFileName asset = last (js_split ''/'' (link img)))
                                 assets) of
                  None \<Rightarrow> Inl (TypeError ''Cannot read properties of undefined (reading assetId)'')
                | Some assetObj' \<Rightarrow> Inr (VLink (assetId assetObj')))))"

definition field_step ::
  "config \<Rightarrow> turndown \<Rightarrow> string list \<Rightarrow> asset_ref list \<Rightarrow> wp_post \<Rightarrow> string \<times> js_value
     \<Rightarrow> post_fields \<Rightarrow> js_error + post_fields" where
  "field_step cfg td assetUrls assets p kv postFields =
     (let postKey = fst kv
      in case (if postKey = ''content'' then convert_content cfg td assetUrls (snd kv)
               else Inr (snd kv)) of
           Inl e \<Rightarrow> Inl e
         | Inr v \<Rightarrow>
             (let postValue = (if postKey = ''tags'' \<or> postKey = ''categories''
                               then join_labels v else v);
                  stored = (if postKey \<notin> set keysToSkip
                            then postFields(postKey \<mapsto> postValue) else postFields)
              in case (if postKey = ''featuredImage'' \<and> greater_zero postValue
                       then (case featured_link assets p of
                               Inl e \<Rightarrow> Inl e
                             | Inr l \<Rightarrow> Inr (stored(''featuredImage'' \<mapsto> l)))
                       else Inr stored) of
                   Inl e \<Rightarrow> Inl e
                 | Inr linked \<Rightarrow>
                     Inr (if postKey = ''featuredImage'' \<and> is_zero postValue
                          then linked(''featuredImage'' := None) else linked)))"

fun fields_loop ::
  "config \<Rightarrow> turndown \<Rightarrow> string list \<Rightarrow> asset_ref list \<Rightarrow> wp_post \<Rightarrow> (string \<times> js_value) list
     \<Rightarrow> post_fields \<Rightarrow> js_error + post_fields" where
  "fields_loop cfg td assetUrls assets p [] postFields = Inr postFields"
| "fields_loop cfg td assetUrls assets p (kv # rest) postFields =
     (case field_step cfg td assetUrls assets p kv postFields of
        Inl e \<Rightarrow> Inl e
      | Inr postFields' \<Rightarrow> fields_loop cfg td assetUrls assets p rest postFields')"

definition postFields_of ::
  "config \<Rightarrow> turndown \<Rightarrow> string list \<Rightarrow> asset_ref list \<Rightarrow> wp_post \<Rightarrow> js_error + post_fields" where
  "postFields_of cfg td assetUrls assets p =
     fields_loop cfg td assetUrls assets p (post_entries p) Map.empty"

text \<open>
  The outer loop of \<open>createContentfulPosts\<close>: an exception in the payload of one post
  leaves the function, and no payload is handed on.
\<close>

fun build_posts ::
  "config \<Rightarrow> turndown \<Rightarrow> string list \<Rightarrow> asset_ref list \<Rightarrow> wp_post list
     \<Rightarrow> js_error + post_fields list" where
  "build_posts cfg td assetUrls assets [] = Inr []"
| "build_posts cfg td assetUrls assets (p # rest) =
     (case postFields_of cfg td assetUrls assets p of
        Inl e \<Rightarrow> Inl e
      | Inr postFields \<Rightarrow>
          (case build_posts cfg td assetUrls assets rest of
             Inl e \<Rightarrow> Inl e
           | Inr promises \<Rightarrow> Inr (postFields # promises)))"

text \<open>
  \<open>createContentfulEntries\<close>: create, then publish; a rejection is caught and the
  promise of that entry resolves with \<open>null\<close>.
\<close>

fun entries_from :: "'e environment \<Rightarrow> nat \<Rightarrow> post_fields list \<Rightarrow> 'e option list" where
  "entries_from env i [] = []"
| "entries_from env i (p # rest) =
     (case createEntry env i p of
        None \<Rightarrow> None
      | Some entry \<Rightarrow> publishEntry env i entry) # entries_from env (Suc i) rest"

definition createContentfulEntries :: "'e environment \<Rightarrow> post_fields list \<Rightarrow> 'e option list" where
  "createContentfulEntries env promises = entries_from env 0 promises"

definition createContentfulPosts ::
  "'e environment \<Rightarrow> config \<Rightarrow> turndown \<Rightarrow> string list \<Rightarrow> asset_ref list \<Rightarrow> wp_post list
     \<Rightarrow> js_error + 'e option list" where
  "createContentfulPosts env cfg td assetUrls assets posts =
     (case build_posts cfg td assetUrls assets posts of
        Inl e \<Rightarrow> Inl e
      | Inr promises \<Rightarrow> Inr (createContentfulEntries env promises))"

text \<open>
  The chain that \<open>buildContentfulAssets\<close> starts: the asset requests are uploaded, the
  URLs of the published assets are listed (\<open>getAndStoreAssets\<close>; \<open>listing\<close> is the
  answer of that request, \<open>None\<close> when it is rejected and the entries are never
  reached), and the entries are built and published.
\<close>

definition publish_all ::
  "'e environment \<Rightarrow> config \<Rightarrow> turndown \<Rightarrow> string list option \<Rightarrow> wp_post list
     \<Rightarrow> (cf_asset option list \<times> asset_ref list) \<times> (js_error + 'e option list) option" where
  "publish_all env cfg td listing posts =
     (let uploaded = createContentfulAssets env (buildContentfulAssets posts) []
      in (uploaded,
          case listing of
            None \<Rightarrow> None
          | Some assetUrls \<Rightarrow> Some (createContentfulPosts env cfg td assetUrls (snd uploaded) posts)))"

text \<open>
  The payload of a post before its featured image, tags and categories are written:
  the fields that are copied or converted.
\<close>

definition base_fields :: "wp_post \<Rightarrow> js_value \<Rightarrow> post_fields" where
  "base_fields p c =
     [''postTitle'' \<mapsto> VStr (postTitle p), ''slug'' \<mapsto> VStr (slug p), ''content'' \<mapsto> c,
      ''publishDate'' \<mapsto> VStr (publishDate p)]"

section \<open>Sample data\<close>

text \<open>
  Concrete posts, images and a destination, for the examples. In \<open>sample_env\<close> every
  operation succeeds, except that the asset uploads at the positions \<open>failing\<close> are
  rejected when they are published; the upload at position \<open>i\<close> takes \<open>takes i\<close>
  milliseconds; an entry is represented by its fields.
\<close>

text \<open>
  \<open>simple_turndown\<close> stands for the library on the documents that are made of plain
  words and of \<open>img\<close> elements written \<^verbatim>\<open><img src="..." alt="...">\<close>: the library returns
  the words as they are and puts in the place of each element what the rule returns for
  it. \<open>parse_img_tag\<close> reads such an element at the start of a text and gives its
  \<open>src\<close>, its \<open>alt\<close> and its length.
\<close>

definition parse_img_tag :: "string \<Rightarrow> (string \<times> string \<times> nat) option" where
  "parse_img_tag s =
     (let open_src = ''<img src='' @ [CHR 0x22];
          to_alt = [CHR 0x22] @ '' alt='' @ [CHR 0x22];
          close = [CHR 0x22] @ ''>'';
          src = takeWhile (\<lambda>c. c \<noteq> CHR 0x22) (drop (length open_src) s);
          after_src = drop (length open_src + length src) s;
          alt = takeWhile (\<lambda>c. c \<noteq> CHR 0x22) (drop (length to_alt) after_src);
          after_alt = drop (length to_alt + length alt) after_src
      in if startsWith open_src s \<and> startsWith to_alt after_src \<and> startsWith close after_alt
         then Some (src, alt, length open_src + length src + length to_alt + length alt + length close)
         else None)"

definition sample_image :: "string \<Rightarrow> image" where
  "sample_image url =
     \<lparr>link = url, description = ''A picture'', title = ''A picture'', mediaId = None,
      postId = 1, featured = False\<rparr>"

definition sample_post :: "int \<Rightarrow> int \<Rightarrow> image list \<Rightarrow> wp_post" where
  "sample_post i fid imgs =
     \<lparr>id' = i, type = ''post'', postTitle = ''Title'', slug = ''title'', content = ''Hello'',
      publishDate = ''2020-01-01T00:00:00+00:00'', featuredImage = fid,
      tags = [''Go'', ''Rust''], categories = [''News''], contentImages = imgs\<rparr>"

definition sample_env :: "nat list \<Rightarrow> (nat \<Rightarrow> nat) \<Rightarrow> post_fields environment" where
  "sample_env failing takes =
     \<lparr>createAsset = (\<lambda>i a. Some \<lparr>sys_id = ''asset-'' @ string_of_nat i, fields' = a\<rparr>),
      processForAllLocales = (\<lambda>i a. Some a),
      publish = (\<lambda>i a. if i \<in> set failing then None else Some a),
      upload_time = takes,
      createEntry = (\<lambda>i pf. Some pf),
      publishEntry = (\<lambda>i e. Some e)\<rparr>"

text \<open>
  Three posts with a featured image each; the pictures of the first and of the third have
  the same file name.
\<close>

definition hero_posts :: "wp_post list" where
  "hero_posts =
     [sample_post 1 7 [sample_image ''http://wp.example/2020/hero.jpg''],
      sample_post 2 8 [sample_image ''http://wp.example/up/a.png''],
      sample_post 3 9 [sample_image ''http://wp.example/2021/hero.jpg'']]"

definition sample_img_html :: string where
  "sample_img_html =
     ''<img src='' @ [CHR 0x22] @ ''http://wp.example/up/a.png'' @ [CHR 0x22]
     @ '' alt='' @ [CHR 0x22] @ ''A'' @ [CHR 0x22] @ ''>''"

fun simple_turndown_loop :: "img_rule \<Rightarrow> nat \<Rightarrow> string \<Rightarrow> js_error + string" where
  "simple_turndown_loop rule skip [] = Inr []"
| "simple_turndown_loop rule (Suc k) (c # cs) = simple_turndown_loop rule k cs"
| "simple_turndown_loop rule 0 (c # cs) =
     (case parse_img_tag (c # cs) of
        None \<Rightarrow>
          (case simple_turndown_loop rule 0 cs of Inl e \<Rightarrow> Inl e | Inr rest \<Rightarrow> Inr (c # rest))
      | Some (src, alt, n) \<Rightarrow>
          (case rule (Some alt) (Some src) of
             Inl e \<Rightarrow> Inl e
           | Inr md \<Rightarrow>
               (case simple_turndown_loop rule (n - 1) cs of
                  Inl e \<Rightarrow> Inl e
                | Inr rest \<Rightarrow> Inr (md @ rest))))"

definition simple_turndown :: turndown where
  "simple_turndown rule html = simple_turndown_loop rule 0 html"

text \<open>
  A fetched site: two tags, one category, one media record, and a post with that media
  record as featured image and two pictures in its body.
\<close>

definition sample_html :: string where
  "sample_html =
     ''<p><img class='' @ [CHR 0x22] @ ''wide'' @ [CHR 0x22] @ '' src='' @ [CHR 0x22]
     @ ''http://wp.example/up/a.png'' @ [CHR 0x22] @ '' alt='' @ [CHR 0x22] @ ''First''
     @ [CHR 0x22] @ ''> and <img src='' @ [CHR 0x27] @ ''http://wp.example/up/b.png''
     @ [CHR 0x27] @ ''/></p>''"

definition sample_raw_post :: "int \<Rightarrow> string \<Rightarrow> raw_post" where
  "sample_raw_post mediaId' html =
     \<lparr>wp_id = 1, wp_type = ''post'', title_rendered = ''Title'', wp_slug = ''title'',
      content_rendered = html, date_gmt = ''2020-01-01T00:00:00'',
      featured_media = mediaId', wp_tags = [5, 2, 9], wp_categories = [3]\<rparr>"

definition sample_media :: wp_media where
  "sample_media =
     \<lparr>media_id = 7, source_url = ''http://wp.example/up/hero.jpg'', alt_text = ''Hero'', post = 1\<rparr>"

definition sample_api :: "api_result \<Rightarrow> api_result list" where
  "sample_api media =
     [\<lparr>success = True, endpoint = ''posts'', data = PostData [sample_raw_post 7 sample_html]\<rparr>,
      \<lparr>success = True, endpoint = ''tags'',
       data = LabelData [\<lparr>label_id = 9, name = ''Rust''\<rparr>, \<lparr>label_id = 5, name = ''Go''\<rparr>]\<rparr>,
      \<lparr>success = True, endpoint = ''categories'', data = LabelData [\<lparr>label_id = 3, name = ''News''\<rparr>]\<rparr>,
      media]"


section \<open>Label resolution\<close>

lemma labels_loop_resolved:
  "snd (labels_loop tagData labelType ids) = List.map_filter (resolve_label tagData) ids"
proof (induction ids)
  case Nil
  show ?case by simp
next
  case (Cons i ids)
  show ?case
  proof (cases "filter (\<lambda>obj. label_id obj = i \<and> name obj \<noteq> []) tagData")
    case Nil
    then have "resolve_label tagData i = None"
      by (simp add: resolve_label_def find_None_iff filter_empty_conv)
    with Nil Cons.IH show ?thesis
      by (simp add: case_prod_beta)
  next
    case (Cons l ls)
    then have "find (\<lambda>obj. label_id obj = i \<and> name obj \<noteq> []) tagData = Some l"
      by (induction tagData) (auto split: if_splits)
    then have "resolve_label tagData i = Some (name l)"
      by (simp add: resolve_label_def)
    with Cons Cons.IH show ?thesis
      by (simp add: case_prod_beta)
  qed
qed

text \<open>
  Claim C8. The labels of a post are the names its ids resolve to, in the order of the
  ids of the post; an id that does not resolve leaves nothing behind. (When no tags or
  categories result was fetched, no id resolves.)
\<close>

theorem getPostLabels_resolves_in_order:
  "snd (getPostLabels apiData postItems labelType) =
     (case filter (\<lambda>obj. endpoint obj = labelType \<and> success obj) apiData of
        [] \<Rightarrow> []
      | apiTag # _ \<Rightarrow> List.map_filter (resolve_label (label_records (data apiTag))) postItems)"
  by (simp add: getPostLabels_def getApiDataType_def case_prod_beta labels_loop_resolved
           split: list.splits)

text \<open>The example of the claim: of the ids 5, 2, 9 only 5 and 9 have a name.\<close>

theorem getPostLabels_go_rust:
  "snd (getPostLabels
          [\<lparr>success = True, endpoint = ''tags'',
            data = LabelData [\<lparr>label_id = 9, name = ''Rust''\<rparr>, \<lparr>label_id = 5, name = ''Go''\<rparr>]\<rparr>]
          [5, 2, 9] ''tags'') = [''Go'', ''Rust'']"
  using getPostLabels_resolves_in_order
    [of "[\<lparr>success = True, endpoint = ''tags'',
            data = LabelData [\<lparr>label_id = 9, name = ''Rust''\<rparr>, \<lparr>label_id = 5, name = ''Go''\<rparr>]\<rparr>]"
        "[5, 2, 9]" "''tags''"]
  by (simp add: resolve_label_def)

section \<open>Asset requests\<close>

lemma split_from_not_Nil: "split_from sep k acc s \<noteq> []"
  by (induction sep k acc s rule: split_from.induct) auto

lemma last_split_from_char:
  "last (split_from [d] 0 acc s) =
     (if d \<in> set s then rev (takeWhile (\<lambda>c. c \<noteq> d) (rev s)) else rev acc @ s)"
proof (induction s arbitrary: acc)
  case Nil
  show ?case by simp
next
  case (Cons c cs)
  show ?case
  proof (cases "c = d")
    case True
    then show ?thesis
      using Cons.IH [of "[]"]
      by (simp add: startsWith_def split_from_not_Nil takeWhile_append)
  next
    case False
    then show ?thesis
      using Cons.IH [of "c # acc"]
      by (auto simp add: startsWith_def takeWhile_append)
  qed
qed

text \<open>\<open>url.split('/').pop()\<close> is the part of the URL after its last slash.\<close>

lemma last_js_split_slash: "last (js_split ''/'' url) = after_last_slash url"
proof (cases "CHR ''/'' \<in> set url")
  case True
  then show ?thesis
    by (simp add: js_split_def after_last_slash_def last_split_from_char)
next
  case False
  then have "\<forall>c \<in> set (rev url). c \<noteq> CHR ''/''"
    by auto
  then have "takeWhile (\<lambda>c. c \<noteq> CHR ''/'') (rev url) = rev url"
    by (simp only: takeWhile_eq_all_conv)
  then have "after_last_slash url = url"
    by (simp only: after_last_slash_def rev_rev_ident)
  moreover from False have "last (js_split ''/'' url) = url"
    by (simp add: js_split_def last_split_from_char)
  ultimately show ?thesis
    by simp
qed

lemma images_loop_append:
  "images_loop imgs assetPromises = assetPromises @ map assetObj imgs"
  by (induction imgs arbitrary: assetPromises) simp_all

lemma posts_loop_append:
  "posts_loop posts assetPromises =
     assetPromises @ map assetObj (concat (map contentImages posts))"
  by (induction posts arbitrary: assetPromises) (simp_all add: images_loop_append)

lemma encodeURI_unescaped: "list_all uri_unescaped s \<Longrightarrow> encodeURI s = s"
  by (induction s) (simp_all add: encodeURI_def)

text \<open>
  Claim C7. The asset requests are one for each image reference of each post, post after
  post and, within a post, image after image; nothing is left out for sharing a file
  name, so there are as many requests as image references.
\<close>

theorem buildContentfulAssets_one_per_image:
  "buildContentfulAssets posts = map assetObj (concat (map contentImages posts)) \<and>
   length (buildContentfulAssets posts) = sum_list (map (\<lambda>p. length (contentImages p)) posts)"
  by (simp add: buildContentfulAssets_def posts_loop_append length_concat comp_def)

text \<open>Two posts that show the same picture: it is requested once for each reference.\<close>

theorem buildContentfulAssets_keeps_duplicates:
  "buildContentfulAssets
     [sample_post 1 0 [sample_image ''http://wp.example/a.jpg''],
      sample_post 2 0 [sample_image ''http://wp.example/b.jpg'', sample_image ''http://wp.example/a.jpg'']]
   = [assetObj (sample_image ''http://wp.example/a.jpg''),
      assetObj (sample_image ''http://wp.example/b.jpg''),
      assetObj (sample_image ''http://wp.example/a.jpg'')]"
  using buildContentfulAssets_one_per_image
    [of "[sample_post 1 0 [sample_image ''http://wp.example/a.jpg''],
          sample_post 2 0 [sample_image ''http://wp.example/b.jpg'', sample_image ''http://wp.example/a.jpg'']]"]
  by (simp add: sample_post_def)

text \<open>
  Claim C10. The file of every asset request has the content type \<open>image/jpeg\<close>,
  whatever the image is, the part of the source URL after its last slash as file name,
  and the URI-encoded source URL as upload location.
\<close>

theorem buildContentfulAssets_file:
  "map file' (buildContentfulAssets posts) =
     map (\<lambda>contentImage.
            \<lparr>contentType = ''image/jpeg'',
             fileName = after_last_slash (link contentImage),
             upload = encodeURI (link contentImage)\<rparr>)
         (concat (map contentImages posts))"
  by (simp add: buildContentfulAssets_def posts_loop_append assetObj_def last_js_split_slash)

text \<open>A PNG with a space in its name is declared a JPEG all the same.\<close>

theorem buildContentfulAssets_file_png:
  "map file' (buildContentfulAssets [sample_post 1 0 [sample_image ''http://wp.example/up/my pic.png'']])
   = [\<lparr>contentType = ''image/jpeg'', fileName = ''my pic.png'',
       upload = ''http://wp.example/up/my%20pic.png''\<rparr>]"
  using buildContentfulAssets_file
    [of "[sample_post 1 0 [sample_image ''http://wp.example/up/my pic.png'']]"]
  by (simp add: sample_post_def sample_image_def after_last_slash_def encodeURI_def
        uri_unescaped_def hex_digit_def)

section \<open>Structured conversion\<close>

lemma map_filter_all_Some:
  "\<forall>x \<in> set xs. f x \<noteq> None \<Longrightarrow> map Some (List.map_filter f xs) = map f xs"
  by (induction xs) auto

lemma rich_line_Some: "trimmedLine \<noteq> [] \<Longrightarrow> rich_line trimmedLine \<noteq> None"
  by (simp add: rich_line_def)

lemma richTextContent_per_line:
  "map Some (richTextContent markdown) =
     map (\<lambda>line. rich_line (trim line))
       (filter (\<lambda>line. trim line \<noteq> []) (js_split [CHR 0x0A] markdown))"
  unfolding richTextContent_def
  by (rule trans [OF _ map_filter_all_Some]) (auto simp: rich_line_Some)

text \<open>White space at the start of a text, and what \<open>strip_leading\<close> removes.\<close>

lemma find_holds: "find P xs = Some x \<Longrightarrow> P x"
  by (induction xs) (simp_all split: if_splits)

lemma find_member: "find P xs = Some x \<Longrightarrow> x \<in> set xs"
  by (induction xs) (simp_all split: if_splits)

lemma space_prefix_Nil: "space_prefix ws [] = 0"
proof (cases "find (\<lambda>w. startsWith w []) ws")
  case None
  then show ?thesis
    by (simp add: space_prefix_def)
next
  case (Some w)
  then have "startsWith w []"
    by (rule find_holds)
  then have "w = []"
    by (simp add: startsWith_def)
  with Some show ?thesis
    by (simp add: space_prefix_def)
qed

lemma space_prefix_Suc:
  assumes "space_prefix ws s = Suc n"
  shows "\<exists>w \<in> set ws. length w = Suc n \<and> s = w @ drop (Suc n) s"
proof -
  from assms obtain w where w: "find (\<lambda>w. startsWith w s) ws = Some w" and n: "length w = Suc n"
    by (cases "find (\<lambda>w. startsWith w s) ws") (simp_all add: space_prefix_def)
  from w have "w \<in> set ws" and "startsWith w s"
    by (rule find_member, rule find_holds)
  from this(2) n have "take (Suc n) s = w"
    by (simp add: startsWith_def)
  then have "s = w @ drop (Suc n) s"
    using append_take_drop_id [of "Suc n" s] by simp
  with \<open>w \<in> set ws\<close> n show ?thesis
    by blast
qed

lemma strip_leading_spaces:
  "\<exists>ws'. set ws' \<subseteq> set ws \<and> drop k s = concat ws' @ strip_leading ws k s"
proof (induction ws k s rule: strip_leading.induct)
  case (1 ws skip)
  show ?case
    by (intro exI [of _ "[]"]) simp
next
  case (2 ws k c cs)
  then show ?case
    by simp
next
  case (3 ws c cs)
  show ?case
  proof (cases "space_prefix ws (c # cs)")
    case 0
    then show ?thesis
      by (intro exI [of _ "[]"]) simp
  next
    case (Suc n)
    from space_prefix_Suc [OF Suc] obtain w where
      w: "w \<in> set ws" "length w = Suc n" "c # cs = w @ drop n cs"
      by auto
    from 3 [OF Suc] obtain ws' where
      ws': "set ws' \<subseteq> set ws" "drop n cs = concat ws' @ strip_leading ws n cs"
      by blast
    have "strip_leading ws 0 (c # cs) = strip_leading ws n cs"
      by (simp add: Suc)
    with w(3) ws'(2) have "drop 0 (c # cs) = concat (w # ws') @ strip_leading ws 0 (c # cs)"
      by simp
    moreover have "set (w # ws') \<subseteq> set ws"
      using w(1) ws'(1) by simp
    ultimately show ?thesis
      by blast
  qed
qed

lemma strip_leading_done:
  "space_prefix ws (strip_leading ws k s) = 0"
proof (induction ws k s rule: strip_leading.induct)
  case (1 ws skip)
  show ?case
    by (simp add: space_prefix_Nil)
next
  case (2 ws k c cs)
  then show ?case
    by simp
next
  case (3 ws c cs)
  then show ?case
    by (cases "space_prefix ws (c # cs)") simp_all
qed

lemma space_prefix_0:
  assumes "space_prefix ws s = 0" and "[] \<notin> set ws" and "w \<in> set ws"
  shows "\<not> startsWith w s"
proof
  assume "startsWith w s"
  with assms(3) have "find (\<lambda>w. startsWith w s) ws \<noteq> None"
    by (auto simp: find_None_iff)
  then obtain v where v: "find (\<lambda>w. startsWith w s) ws = Some v"
    by blast
  with assms(1) have "v = []"
    by (simp add: space_prefix_def)
  moreover from v have "v \<in> set ws"
    by (rule find_member)
  ultimately show False
    using assms(2) by simp
qed

lemma startsWith_append:
  assumes "startsWith w a"
  shows "startsWith w (a @ b)"
proof -
  from assms have "length (take (length w) a) = length w"
    by (simp add: startsWith_def)
  then have "length w \<le> length a"
    by simp
  with assms show ?thesis
    by (simp add: startsWith_def)
qed

lemma white_space_not_Nil: "[] \<notin> set white_space"
  by (simp add: white_space_def)

text \<open>
  \<open>trim\<close> takes white space away at both ends and nothing else, and what it leaves
  neither begins nor ends with white space.
\<close>

lemma trim_spaces:
  "\<exists>a b. set a \<subseteq> set white_space \<and> set b \<subseteq> set white_space \<and>
         line = concat a @ trim line @ concat b"
proof -
  let ?t = "strip_leading white_space 0 line"
  from strip_leading_spaces [of white_space 0 line] obtain a where
    a: "set a \<subseteq> set white_space" "line = concat a @ ?t"
    by auto
  from strip_leading_spaces [of "map rev white_space" 0 "rev ?t"] obtain b' where
    b': "set b' \<subseteq> set (map rev white_space)" "rev ?t = concat b' @ rev (trim line)"
    by (auto simp: trim_def)
  from b'(2) have "?t = trim line @ rev (concat b')"
    by (metis rev_append rev_rev_ident)
  then have t: "?t = trim line @ concat (map rev (rev b'))"
    by (simp add: rev_concat)
  from b'(1) have b: "set (map rev (rev b')) \<subseteq> set white_space"
    by (auto simp: image_iff)
  have "concat a @ ?t = concat a @ trim line @ concat (map rev (rev b'))"
    using t by (rule arg_cong)
  with a(2) have "line = concat a @ trim line @ concat (map rev (rev b'))"
    by (rule trans)
  with a(1) b show ?thesis
    by blast
qed

lemma trim_trimmed:
  assumes "w \<in> set white_space"
  shows "\<not> startsWith w (trim line)" and "\<not> startsWith (rev w) (rev (trim line))"
proof -
  let ?t = "strip_leading white_space 0 line"
  have "rev (trim line) = strip_leading (map rev white_space) 0 (rev ?t)"
    by (simp add: trim_def)
  then have "space_prefix (map rev white_space) (rev (trim line)) = 0"
    by (simp add: strip_leading_done)
  moreover have "[] \<notin> set (map rev white_space)"
    using white_space_not_Nil by auto
  moreover have "rev w \<in> set (map rev white_space)"
    using assms by simp
  ultimately show "\<not> startsWith (rev w) (rev (trim line))"
    by (rule space_prefix_0)
  from strip_leading_spaces [of "map rev white_space" 0 "rev ?t"] obtain b' where
    "rev ?t = concat b' @ rev (trim line)"
    by (auto simp: trim_def)
  then have t: "?t = trim line @ rev (concat b')"
    by (metis rev_append rev_rev_ident)
  have "\<not> startsWith w ?t"
    using strip_leading_done white_space_not_Nil assms by (rule space_prefix_0)
  have "startsWith w ?t" if "startsWith w (trim line)"
    by (subst t) (rule startsWith_append [OF that])
  with \<open>\<not> startsWith w ?t\<close> show "\<not> startsWith w (trim line)"
    by blast
qed

text \<open>
  Claim C9. A trimmed line that begins with \<open>#\<close>, \<open>##\<close> or \<open>###\<close> and a space becomes a
  heading of level 1, 2 or 3 with the rest of the line as its text; one that begins with
  \<open>>\<close> and a space becomes a block quote around a paragraph with the rest as its text;
  any other non-empty line becomes a paragraph with the line as its text. Every line of
  the markdown that is not blank gives exactly one node, in the order of the lines. The
  trimmed line is the line without the white space at its two ends: what is taken away
  is white space, and what is left neither begins nor ends with a white-space character.
\<close>

theorem rich_line_by_marker:
  "rich_line (''# '' @ t) = Some (Node ''heading-1'' [TextNode t]) \<and>
   rich_line (''## '' @ t) = Some (Node ''heading-2'' [TextNode t]) \<and>
   rich_line (''### '' @ t) = Some (Node ''heading-3'' [TextNode t]) \<and>
   rich_line (''> '' @ t) = Some (Node ''blockquote'' [Node ''paragraph'' [TextNode t]]) \<and>
   (l \<noteq> [] \<and> \<not> startsWith ''# '' l \<and> \<not> startsWith ''## '' l \<and> \<not> startsWith ''### '' l \<and>
      \<not> startsWith ''> '' l \<longrightarrow> rich_line l = Some (Node ''paragraph'' [TextNode l])) \<and>
   map Some (richTextContent markdown) =
     map (\<lambda>line. rich_line (trim line))
       (filter (\<lambda>line. trim line \<noteq> []) (js_split [CHR 0x0A] markdown)) \<and>
   (\<exists>a b. set a \<subseteq> set white_space \<and> set b \<subseteq> set white_space \<and>
          line = concat a @ trim line @ concat b) \<and>
   (\<forall>w \<in> set white_space.
      \<not> startsWith w (trim line) \<and> \<not> startsWith (rev w) (rev (trim line)))"
proof -
  have "\<forall>w \<in> set white_space.
          \<not> startsWith w (trim line) \<and> \<not> startsWith (rev w) (rev (trim line))"
    by (simp add: trim_trimmed)
  with trim_spaces [of line] show ?thesis
    by (simp add: rich_line_def startsWith_def richTextContent_per_line)
qed

text \<open>
  The lines of the claim, alone and in a markdown text whose first line begins with a
  no-break space and ends with two spaces, and which has a line of a tab and a space
  between the last two.
\<close>

theorem rich_line_examples:
  "rich_line ''# Hello'' = Some (Node ''heading-1'' [TextNode ''Hello'']) \<and>
   rich_line ''> Quoted'' = Some (Node ''blockquote'' [Node ''paragraph'' [TextNode ''Quoted'']]) \<and>
   rich_line ''Plain text.'' = Some (Node ''paragraph'' [TextNode ''Plain text.'']) \<and>
   richTextContent ([CHR 0xC2, CHR 0xA0] @ ''# Hello  '' @ [CHR 0x0A] @ ''> Quoted'' @ [CHR 0x0A]
                    @ [CHR 0x09, CHR 0x20] @ [CHR 0x0A] @ ''Plain text.'') =
     [Node ''heading-1'' [TextNode ''Hello''],
      Node ''blockquote'' [Node ''paragraph'' [TextNode ''Quoted'']],
      Node ''paragraph'' [TextNode ''Plain text.'']] \<and>
   trim ([CHR 0xC2, CHR 0xA0] @ ''# Hello  '') = ''# Hello'' \<and>
   trim [CHR 0x09, CHR 0x20] = [] \<and>
   \<not> startsWith '' '' (trim ([CHR 0xC2, CHR 0xA0] @ ''# Hello  '')) \<and>
   \<not> startsWith '' '' (rev (trim ([CHR 0xC2, CHR 0xA0] @ ''# Hello  '')))"
proof -
  let ?md = "[CHR 0xC2, CHR 0xA0] @ ''# Hello  '' @ [CHR 0x0A] @ ''> Quoted'' @ [CHR 0x0A]
               @ [CHR 0x09, CHR 0x20] @ [CHR 0x0A] @ ''Plain text.''"
  note t = rich_line_by_marker [of "''Hello''" "''Plain text.''" ?md]
  note q = rich_line_by_marker [of "''Quoted''" "''Plain text.''" ?md]
  have h1: "rich_line ''# Hello'' = Some (Node ''heading-1'' [TextNode ''Hello''])"
    using t by simp
  have h2: "rich_line ''> Quoted'' = Some (Node ''blockquote'' [Node ''paragraph'' [TextNode ''Quoted'']])"
    using q by simp
  have h3: "rich_line ''Plain text.'' = Some (Node ''paragraph'' [TextNode ''Plain text.''])"
    using t by (simp add: startsWith_def)
  have lines: "map trim (filter (\<lambda>line. trim line \<noteq> []) (js_split [CHR 0x0A] ?md)) =
                 [''# Hello'', ''> Quoted'', ''Plain text.'']"
    by code_simp
  have "map Some (richTextContent ?md) =
          map (\<lambda>line. rich_line (trim line))
            (filter (\<lambda>line. trim line \<noteq> []) (js_split [CHR 0x0A] ?md))"
    using t by blast
  also have "\<dots> = map rich_line (map trim (filter (\<lambda>line. trim line \<noteq> []) (js_split [CHR 0x0A] ?md)))"
    by (simp only: map_map comp_def)
  also have "\<dots> = [rich_line ''# Hello'', rich_line ''> Quoted'', rich_line ''Plain text.'']"
    by (simp only: lines list.map)
  finally have "map Some (richTextContent ?md) =
      map Some [Node ''heading-1'' [TextNode ''Hello''],
                Node ''blockquote'' [Node ''paragraph'' [TextNode ''Quoted'']],
                Node ''paragraph'' [TextNode ''Plain text.'']]"
    by (simp add: h1 h2 h3)
  then have "richTextContent ?md =
      [Node ''heading-1'' [TextNode ''Hello''],
       Node ''blockquote'' [Node ''paragraph'' [TextNode ''Quoted'']],
       Node ''paragraph'' [TextNode ''Plain text.'']]"
    by (simp only: inj_map_eq_map [OF inj_Some])
  moreover have "trim ([CHR 0xC2, CHR 0xA0] @ ''# Hello  '') = ''# Hello''"
    and "trim [CHR 0x09, CHR 0x20] = []"
    by code_simp+
  moreover have "'' '' \<in> set white_space"
    by (simp add: white_space_def)
  with rich_line_by_marker [where line = "[CHR 0xC2, CHR 0xA0] @ ''# Hello  ''"]
  have "\<not> startsWith '' '' (trim ([CHR 0xC2, CHR 0xA0] @ ''# Hello  ''))"
    and "\<not> startsWith '' '' (rev (trim ([CHR 0xC2, CHR 0xA0] @ ''# Hello  '')))"
    by force+
  ultimately show ?thesis
    using h1 h2 h3 by (intro conjI)
qed

section \<open>Entry payloads\<close>

text \<open>
  What the inner loop does with each kind of property, and the payload it ends with.
\<close>

lemma step_skip:
  "k \<in> {''id'', ''type'', ''contentImages''} \<Longrightarrow>
   field_step cfg td urls assets p (k, v) pf = Inr pf"
  by (elim insertE emptyE) (simp_all add: field_step_def keysToSkip_def)

lemma step_plain:
  "k \<in> {''postTitle'', ''slug'', ''publishDate''} \<Longrightarrow>
   field_step cfg td urls assets p (k, v) pf = Inr (pf(k \<mapsto> v))"
  by (elim insertE emptyE) (simp_all add: field_step_def keysToSkip_def)

lemma step_content:
  "field_step cfg td urls assets p (''content'', v) pf =
     (case convert_content cfg td urls v of Inl e \<Rightarrow> Inl e | Inr c \<Rightarrow> Inr (pf(''content'' \<mapsto> c)))"
  by (simp add: field_step_def keysToSkip_def split: sum.splits)

lemma step_labels:
  "k \<in> {''tags'', ''categories''} \<Longrightarrow>
   field_step cfg td urls assets p (k, VArr xs) pf = Inr (pf(k \<mapsto> VStr (js_join '', '' xs)))"
  by (elim insertE emptyE) (simp_all add: field_step_def keysToSkip_def)

lemma step_featured:
  "field_step cfg td urls assets p (''featuredImage'', VNum n) pf =
     (if n > 0 then
        (case featured_link assets p of
           Inl e \<Rightarrow> Inl e
         | Inr l \<Rightarrow> Inr (pf(''featuredImage'' \<mapsto> l)))
      else if n = 0 then Inr (pf(''featuredImage'' := None))
      else Inr (pf(''featuredImage'' \<mapsto> VNum n)))"
  by (simp add: field_step_def keysToSkip_def split: sum.splits)

text \<open>The stand-in for the library returns a plain word as it is.\<close>

lemma simple_turndown_Hello: "simple_turndown rule ''Hello'' = Inr ''Hello''"
  by code_simp

lemmas field_steps = step_skip step_plain step_content step_labels step_featured

lemma postFields_of_thrown:
  assumes "convert_content cfg td urls (VStr (content p)) = Inl e"
  shows "postFields_of cfg td urls assets p = Inl e"
  using assms
  by (simp add: postFields_of_def post_entries_def field_steps)

lemma postFields_of_converted:
  assumes "convert_content cfg td urls (VStr (content p)) = Inr c"
  shows "postFields_of cfg td urls assets p =
          (case (if featuredImage p > 0 then
                   (case featured_link assets p of
                      Inl e \<Rightarrow> Inl e
                    | Inr l \<Rightarrow> Inr ((base_fields p c)(''featuredImage'' \<mapsto> l)))
                 else if featuredImage p = 0 then Inr ((base_fields p c)(''featuredImage'' := None))
                 else Inr ((base_fields p c)(''featuredImage'' \<mapsto> VNum (featuredImage p)))) of
             Inl e \<Rightarrow> Inl e
           | Inr pf \<Rightarrow>
               Inr (pf(''tags'' \<mapsto> VStr (js_join '', '' (tags p)),
                       ''categories'' \<mapsto> VStr (js_join '', '' (categories p)))))"
proof -
  have start: "postFields_of cfg td urls assets p =
      fields_loop cfg td urls assets p
        [(''featuredImage'', VNum (featuredImage p)), (''tags'', VArr (tags p)),
         (''categories'', VArr (categories p)), (''contentImages'', VImages (contentImages p))]
        (base_fields p c)"
    using assms
    by (simp add: postFields_of_def post_entries_def field_steps base_fields_def)
  show ?thesis
  proof (cases "featuredImage p > 0")
    case True
    then show ?thesis
      by (cases "featured_link assets p") (simp_all add: start field_steps)
  next
    case False
    then show ?thesis
      by (cases "featuredImage p = 0") (simp_all add: start field_steps)
  qed
qed

lemma postFields_of_zero:
  assumes "featuredImage p = 0"
  shows "postFields_of cfg td urls assets p =
     (case convert_content cfg td urls (VStr (content p)) of
        Inl e \<Rightarrow> Inl e
      | Inr c \<Rightarrow>
          Inr ((base_fields p c)(''featuredImage'' := None,
                 ''tags'' \<mapsto> VStr (js_join '', '' (tags p)),
                 ''categories'' \<mapsto> VStr (js_join '', '' (categories p)))))"
  proof (cases "convert_content cfg td urls (VStr (content p))")
  case (Inl e)
  then show ?thesis
    by (simp add: postFields_of_thrown)
next
  case (Inr c)
  then show ?thesis
    using assms by (simp add: postFields_of_converted)
qed

section \<open>The uploads\<close>

text \<open>
  The outcomes that \<open>Promise.all\<close> gives stand in the order of the requests, one for
  each request, whatever happened to the others. The list \<open>assets\<close> holds the published
  assets by the time their uploads settled; when no upload outlasts the five seconds
  between two timers, that is the order of the requests.
\<close>

lemma createContentfulAssets_outcomes:
  "fst (createContentfulAssets env promises assets) =
     map (\<lambda>(index, asset). upload_asset env index asset) (List.enumerate 0 promises)"
  by (simp add: createContentfulAssets_def uploads_def case_prod_beta)

lemma published_filter:
  "published env promises =
     map (\<lambda>(settled, outcome). (settled, the outcome))
       (filter (\<lambda>(settled, outcome). outcome \<noteq> None) (uploads env promises))"
  unfolding published_def List.map_filter_def
  by (rule map_cong [OF arg_cong2 [where f = filter]]) (auto split: prod.splits)

lemma uploads_nth:
  "n < length promises \<Longrightarrow>
     uploads env promises ! n =
       (1000 + 5000 * n + upload_time env n, upload_asset env n (promises ! n))"
  by (simp add: uploads_def nth_enumerate_eq)

lemma length_uploads:
  "length (uploads env promises) = length promises"
  by (simp add: uploads_def)

lemma published_iff:
  "(settled, a) \<in> set (published env promises) \<longleftrightarrow>
     (\<exists>n < length promises.
        upload_asset env n (promises ! n) = Some a \<and>
        settled = 1000 + 5000 * n + upload_time env n)"
proof -
  have "(settled, a) \<in> set (published env promises) \<longleftrightarrow>
          (settled, Some a) \<in> set (uploads env promises)"
    by (force simp: published_def List.map_filter_def image_iff split: prod.splits)
  also have "\<dots> \<longleftrightarrow> (\<exists>n < length promises. uploads env promises ! n = (settled, Some a))"
    by (simp add: in_set_conv_nth length_uploads)
  also have "\<dots> \<longleftrightarrow> (\<exists>n < length promises.
        upload_asset env n (promises ! n) = Some a \<and>
        settled = 1000 + 5000 * n + upload_time env n)"
    by (auto simp: uploads_nth)
  finally show ?thesis .
qed

lemma assets_published:
  "set (snd (createContentfulAssets env promises [])) =
     (\<lambda>(settled, asset). asset_ref_of asset) ` set (published env promises) \<and>
   length (snd (createContentfulAssets env promises [])) = length (published env promises)"
  by (simp add: createContentfulAssets_def)

lemma settle_times_sorted:
  assumes "\<forall>i. upload_time env i \<le> 5000"
  shows "sorted (map fst (uploads env promises))"
proof -
  have "map fst (uploads env promises) =
          map (\<lambda>index. 1000 + 5000 * index + upload_time env index) [0 ..< length promises]"
    by (rule nth_equalityI) (simp_all add: length_uploads uploads_nth)
  moreover have "sorted (map (\<lambda>index. 1000 + 5000 * index + upload_time env index) [0 ..< n])" for n
  proof (simp add: sorted_iff_nth_mono, intro allI impI)
    fix i j :: nat
    assume "i \<le> j" and "j < n"
    show "5000 * i + upload_time env i \<le> 5000 * j + upload_time env j"
    proof (cases "i = j")
      case True
      then show ?thesis by simp
    next
      case False
      with \<open>i \<le> j\<close> have "Suc i \<le> j"
        by simp
      then have "5000 * Suc i \<le> 5000 * j"
        by (rule mult_le_mono2)
      with assms [rule_format, of i] show ?thesis
        by simp
    qed
  qed
  ultimately show ?thesis
    by simp
qed

lemma published_sorted:
  assumes "\<forall>i. upload_time env i \<le> 5000"
  shows "sorted (map fst (published env promises))"
proof -
  have "map fst (published env promises) =
          map fst (filter (\<lambda>(settled, outcome). outcome \<noteq> None) (uploads env promises))"
    by (simp add: published_filter case_prod_beta comp_def)
  also have "\<dots> = filter (\<lambda>settled. True) (map fst (filter (\<lambda>(settled, outcome). outcome \<noteq> None) (uploads env promises)))"
    by simp
  finally show ?thesis
    using sorted_filter [OF settle_times_sorted [OF assms, of promises],
        of "\<lambda>(settled, outcome). outcome \<noteq> None"]
    by simp
qed

lemma assets_in_upload_order:
  assumes "\<forall>i. upload_time env i \<le> 5000"
  shows "snd (createContentfulAssets env promises []) =
           map (\<lambda>(settled, asset). asset_ref_of asset) (published env promises)"
  by (simp add: createContentfulAssets_def sort_key_id_if_sorted [OF published_sorted [OF assms]])

text \<open>The requests for the three sample posts and what their uploads give.\<close>

lemma hero_requests:
  "buildContentfulAssets hero_posts =
     [assetObj (sample_image ''http://wp.example/2020/hero.jpg''),
      assetObj (sample_image ''http://wp.example/up/a.png''),
      assetObj (sample_image ''http://wp.example/2021/hero.jpg'')]"
  by (simp add: buildContentfulAssets_def hero_posts_def sample_post_def)

lemma hero_names:
  "fileName (file' (assetObj (sample_image ''http://wp.example/2020/hero.jpg''))) = ''hero.jpg''"
  "fileName (file' (assetObj (sample_image ''http://wp.example/up/a.png''))) = ''a.png''"
  "fileName (file' (assetObj (sample_image ''http://wp.example/2021/hero.jpg''))) = ''hero.jpg''"
  by code_simp+

lemma hero_uploads:
  "uploads (sample_env failing takes) (buildContentfulAssets hero_posts) =
     [(1000 + takes 0,
       if 0 \<in> set failing then None
       else Some \<lparr>sys_id = ''asset-0'',
                  fields' = assetObj (sample_image ''http://wp.example/2020/hero.jpg'')\<rparr>),
      (6000 + takes 1,
       if 1 \<in> set failing then None
       else Some \<lparr>sys_id = ''asset-1'',
                  fields' = assetObj (sample_image ''http://wp.example/up/a.png'')\<rparr>),
      (11000 + takes 2,
       if 2 \<in> set failing then None
       else Some \<lparr>sys_id = ''asset-2'',
                  fields' = assetObj (sample_image ''http://wp.example/2021/hero.jpg'')\<rparr>)]"
proof -
  have n: "string_of_nat 0 = ''0''" "string_of_nat 1 = ''1''" "string_of_nat 2 = ''2''"
    by code_simp+
  have two: "Suc (Suc 0) = 2"
    by simp
  show ?thesis
    by (simp add: hero_requests uploads_def upload_asset_def sample_env_def n two)
qed

section \<open>Images of a post\<close>

lemma filter_first_find:
  "(case filter P xs of [] \<Rightarrow> None | x # _ \<Rightarrow> Some x) = find P xs"
  by (induction xs) auto

lemma first_of_filter: "first_of (filter P xs) = find P xs"
  by (simp add: first_of_def filter_first_find)

lemma featured_images_none:
  "\<not> featured_media postData > 0 \<Longrightarrow> featured_images apiData postData = Inr ([], [])"
  by (simp add: featured_images_def)

lemma featured_images_no_media:
  assumes "featured_media postData > 0"
    and "filter (\<lambda>obj. endpoint obj = ''media'' \<and> success obj) apiData = []"
  shows "featured_images apiData postData =
           Inl (TypeError ''Cannot read properties of undefined (reading data)'')"
  using assms by (simp add: featured_images_def getApiDataType_def)

lemma featured_images_media:
  assumes "featured_media postData > 0"
    and "filter (\<lambda>obj. endpoint obj = ''media'' \<and> success obj) apiData = mediaData # others"
  shows "featured_images apiData postData =
           (case find (\<lambda>obj. media_id obj = featured_media postData) (media_records (data mediaData)) of
              Some mediaObj \<Rightarrow> Inr ([], [featured_image postData mediaObj])
            | None \<Rightarrow>
                Inr ([''Warning: Featured media with ID '' @ string_of_int (featured_media postData)
                      @ '' not found for post: '' @ wp_slug postData], []))"
proof (cases "filter (\<lambda>obj. media_id obj = featured_media postData) (media_records (data mediaData))")
  case Nil
  with filter_first_find [of "\<lambda>obj. media_id obj = featured_media postData" "media_records (data mediaData)"]
  have "find (\<lambda>obj. media_id obj = featured_media postData) (media_records (data mediaData)) = None"
    by simp
  with Nil assms show ?thesis
    by (simp add: featured_images_def getApiDataType_def)
next
  case (Cons mediaObj list)
  with filter_first_find [of "\<lambda>obj. media_id obj = featured_media postData" "media_records (data mediaData)"]
  have "find (\<lambda>obj. media_id obj = featured_media postData) (media_records (data mediaData)) = Some mediaObj"
    by simp
  with Cons assms show ?thesis
    by (simp add: featured_images_def getApiDataType_def)
qed

lemma getPostBodyImages_order:
  assumes "getPostBodyImages apiData postData = Inr (out, images)"
  shows "images =
           (if featured_media postData > 0
            then (case resolve_media apiData (featured_media postData) of
                    Some mediaObj \<Rightarrow> [featured_image postData mediaObj]
                  | None \<Rightarrow> [])
            else []) @ body_images postData"
proof (cases "featured_media postData > 0")
  case False
  with assms show ?thesis
    by (simp add: getPostBodyImages_def featured_images_none)
next
  case True
  show ?thesis
  proof (cases "filter (\<lambda>obj. endpoint obj = ''media'' \<and> success obj) apiData")
    case Nil
    with True assms show ?thesis
      by (simp add: getPostBodyImages_def featured_images_no_media)
  next
    case (Cons mediaData others)
    with True assms show ?thesis
      by (auto simp: getPostBodyImages_def featured_images_media [OF True Cons] resolve_media_def
            split: option.splits)
  qed
qed

lemma exec_loop_index_ge:
  "m \<in> set (exec_loop pos k s) \<Longrightarrow> pos + k \<le> index m"
proof (induction pos k s rule: exec_loop.induct)
  case (1 pos skip)
  then show ?case by simp
next
  case (2 pos k c cs)
  then show ?case by simp
next
  case (3 pos c cs)
  show ?case
  proof (cases "match_img (c # cs)")
    case None
    with 3 show ?thesis by simp
  next
    case (Some r)
    obtain m0 cap where r: "r = (m0, cap)"
      by (cases r)
    show ?thesis
    proof (cases "m = \<lparr>matched = m0, capture = cap, index = pos\<rparr>")
      case True
      then show ?thesis by simp
    next
      case False
      with "3.prems" Some r have "m \<in> set (exec_loop (Suc pos) (length m0 - 1) cs)"
        by simp
      from "3.IH"(2) [OF Some r [symmetric] this] show ?thesis
        by simp
    qed
  qed
qed

lemma exec_loop_sorted: "sorted_wrt (<) (map index (exec_loop pos k s))"
  by (induction pos k s rule: exec_loop.induct)
     (auto split: option.splits dest!: exec_loop_index_ge)

lemma match_img_take: "match_img s = Some (m0, cap) \<Longrightarrow> take (length m0) s = m0"
  by (auto simp: match_img_def split: if_splits nat.splits option.splits)

lemma drop_from_Suc:
  assumes "Suc pos \<le> i \<and> take n (drop (i - Suc pos) cs) = t"
  shows "pos \<le> i \<and> take n (drop (i - pos) (c # cs)) = t"
proof -
  from assms have "i - pos = Suc (i - Suc pos)"
    by arith
  with assms show ?thesis
    by simp
qed

lemma exec_loop_at:
  "m \<in> set (exec_loop pos k s) \<Longrightarrow>
     pos \<le> index m \<and> take (length (matched m)) (drop (index m - pos) s) = matched m"
proof (induction pos k s rule: exec_loop.induct)
  case (1 pos skip)
  then show ?case by simp
next
  case (2 pos k c cs)
  then show ?case
    by (intro drop_from_Suc) simp
next
  case (3 pos c cs)
  show ?case
  proof (cases "match_img (c # cs)")
    case None
    with 3 show ?thesis
      by (intro drop_from_Suc) simp
  next
    case (Some r)
    obtain m0 cap where r: "r = (m0, cap)"
      by (cases r)
    show ?thesis
    proof (cases "m = \<lparr>matched = m0, capture = cap, index = pos\<rparr>")
      case True
      with Some r show ?thesis
        by (simp add: match_img_take)
    next
      case False
      with "3.prems" Some r have "m \<in> set (exec_loop (Suc pos) (length m0 - 1) cs)"
        by simp
      from "3.IH"(2) [OF Some r [symmetric] this] show ?thesis
        by (intro drop_from_Suc)
    qed
  qed
qed


text \<open>
  What a match of the image pattern looks like: it begins with \<open><img\<close>, and the capture
  stands in it between two quotes and has no quote itself.
\<close>

lemma strip_leading_suffix: "\<exists>w. s = w @ strip_leading ws k s"
proof (induction ws k s rule: strip_leading.induct)
  case (1 ws skip)
  show ?case by simp
next
  case (2 ws k c cs)
  then obtain w where "cs = w @ strip_leading ws k cs"
    by blast
  then have "c # cs = (c # w) @ strip_leading ws (Suc k) (c # cs)"
    by simp
  then show ?case
    by blast
next
  case (3 ws c cs)
  show ?case
  proof (cases "space_prefix ws (c # cs)")
    case 0
    then have "c # cs = [] @ strip_leading ws 0 (c # cs)"
      by simp
    then show ?thesis
      by blast
  next
    case (Suc n)
    with 3 obtain w where "cs = w @ strip_leading ws n cs"
      by blast
    with Suc have "c # cs = (c # w) @ strip_leading ws 0 (c # cs)"
      by simp
    then show ?thesis
      by blast
  qed
qed

lemma match_src_shape:
  assumes "match_src s = Some (cap, rest)"
  shows "\<exists>a q q' b. s = a @ q # cap @ q' # b @ rest \<and> is_quote q \<and> is_quote q' \<and>
           (\<forall>c \<in> set cap. \<not> is_quote c)"
proof -
  from assms obtain e s1 q s2 q' s3 g where
    src: "startsWith ''src'' s"
    and eq: "strip_leading white_space 0 (drop 3 s) = e # s1"
    and qu: "strip_leading white_space 0 s1 = q # s2" "is_quote q"
    and cl: "dropWhile (\<lambda>c. \<not> is_quote c) s2 = q' # s3"
    and gt: "dropWhile (\<lambda>c. c \<noteq> CHR ''>'') s3 = g # rest"
    and cap: "cap = takeWhile (\<lambda>c. \<not> is_quote c) s2"
    by (auto simp: match_src_def split: if_splits list.splits)
  from src have "take 3 s = ''src''"
    by (simp add: startsWith_def numeral_3_eq_3)
  then have "s = ''src'' @ drop 3 s"
    by (metis append_take_drop_id)
  moreover from strip_leading_suffix [of "drop 3 s" white_space 0] eq
  obtain w1 where "drop 3 s = w1 @ e # s1"
    by auto
  moreover from strip_leading_suffix [of s1 white_space 0] qu
  obtain w2 where "s1 = w2 @ q # s2"
    by auto
  moreover from cl cap have "s2 = cap @ q' # s3" and "is_quote q'"
    by (simp_all add: dropWhile_eq_Cons_conv)
  moreover from gt have "s3 = takeWhile (\<lambda>c. c \<noteq> CHR ''>'') s3 @ g # rest"
    by (metis takeWhile_dropWhile_id)
  ultimately have "s = (''src'' @ w1 @ e # w2) @ q # cap @ q' # (takeWhile (\<lambda>c. c \<noteq> CHR ''>'') s3 @ [g]) @ rest"
    by simp
  moreover from cap have "\<forall>c \<in> set cap. \<not> is_quote c"
    by (auto dest: set_takeWhileD)
  ultimately show ?thesis
    using qu(2) \<open>is_quote q'\<close> by blast
qed

lemma skip_to_src_shape:
  assumes "skip_to_src s = Some (cap, rest)"
  shows "\<exists>a q q' b. s = a @ q # cap @ q' # b @ rest \<and> is_quote q \<and> is_quote q' \<and>
           (\<forall>c \<in> set cap. \<not> is_quote c)"
  using assms
proof (induction s)
  case Nil
  then show ?case by simp
next
  case (Cons c cs)
  show ?case
  proof (cases "match_src (c # cs)")
    case (Some r)
    with Cons.prems have "match_src (c # cs) = Some (cap, rest)"
      by simp
    then show ?thesis
      by (rule match_src_shape)
  next
    case None
    with Cons.prems have "skip_to_src cs = Some (cap, rest)"
      by (simp split: if_splits)
    from Cons.IH [OF this] obtain a q q' b where
      "cs = a @ q # cap @ q' # b @ rest" "is_quote q" "is_quote q'" "\<forall>c \<in> set cap. \<not> is_quote c"
      by blast
    then have "c # cs = (c # a) @ q # cap @ q' # b @ rest"
      by simp
    with \<open>is_quote q\<close> \<open>is_quote q'\<close> \<open>\<forall>c \<in> set cap. \<not> is_quote c\<close> show ?thesis
      by blast
  qed
qed

lemma match_img_shape:
  assumes "match_img s = Some (m0, cap)"
  shows "startsWith ''<img'' m0 \<and>
         (\<exists>pre q q' post. m0 = pre @ q # cap @ q' # post \<and> is_quote q \<and> is_quote q' \<and>
            (\<forall>c \<in> set cap. \<not> is_quote c))"
proof -
  from assms obtain n rest where
    img: "startsWith ''<img'' s"
    and skip: "skip_to_src (drop (4 + Suc n) s) = Some (cap, rest)"
    and m0: "m0 = take (length s - length rest) s"
    by (auto simp: match_img_def split: if_splits nat.splits option.splits)
  from skip_to_src_shape [OF skip] obtain a q q' b where
    d: "drop (4 + Suc n) s = a @ q # cap @ q' # b @ rest"
    and qs: "is_quote q" "is_quote q'" "\<forall>c \<in> set cap. \<not> is_quote c"
    by blast
  define P where "P = take (4 + Suc n) s @ a @ q # cap @ q' # b"
  have "s = take (4 + Suc n) s @ drop (4 + Suc n) s"
    by simp
  with d have s: "s = P @ rest"
    by (simp add: P_def)
  then have "length s = length P + length rest"
    using arg_cong [OF s, of length] by simp
  then have "length s - length rest = length P"
    by simp
  with m0 have "m0 = take (length P) s"
    by simp
  also have "\<dots> = take (length P) (P @ rest)"
    using s by simp
  finally have m: "m0 = P"
    by simp
  from d have "drop (4 + Suc n) s \<noteq> []"
    by simp
  then have "4 + Suc n < length s"
    by simp
  with img have "startsWith ''<img'' P"
    by (simp add: startsWith_def P_def)
  moreover have "P = (take (4 + Suc n) s @ a) @ q # cap @ q' # b"
    by (simp add: P_def)
  ultimately show ?thesis
    using m qs by blast
qed

lemma exec_loop_match:
  "m \<in> set (exec_loop pos k s) \<Longrightarrow> \<exists>t. match_img t = Some (matched m, capture m)"
proof (induction pos k s rule: exec_loop.induct)
  case (1 pos skip)
  then show ?case by simp
next
  case (2 pos k c cs)
  then show ?case by simp
next
  case (3 pos c cs)
  show ?case
  proof (cases "match_img (c # cs)")
    case None
    with 3 show ?thesis by simp
  next
    case (Some r)
    obtain m0 cap where r: "r = (m0, cap)"
      by (cases r)
    show ?thesis
    proof (cases "m = \<lparr>matched = m0, capture = cap, index = pos\<rparr>")
      case True
      with Some r show ?thesis
        by auto
    next
      case False
      with "3.prems" Some r have "m \<in> set (exec_loop (Suc pos) (length m0 - 1) cs)"
        by simp
      from "3.IH"(2) [OF Some r [symmetric] this] show ?thesis .
    qed
  qed
qed

lemma featured_link_Inr:
  assumes "featured_link assets p = Inr l"
  shows "\<exists>img rest assetObj'. contentImages p = img # rest \<and>
           find (\<lambda>asset. assetFileName asset = after_last_slash (link img)) assets = Some assetObj' \<and>
           l = VLink (assetId assetObj')"
  using assms unfolding featured_link_def first_of_filter last_js_split_slash
  by (auto simp: first_of_def split: list.splits option.splits)

lemma postFields_of_featured:
  assumes "featuredImage p > 0" and "postFields_of cfg td assetUrls assets p = Inr pf"
  shows "\<exists>l. featured_link assets p = Inr l \<and> pf ''featuredImage'' = Some l"
proof (cases "convert_content cfg td assetUrls (VStr (content p))")
  case (Inl e)
  with assms show ?thesis
    by (simp add: postFields_of_thrown)
next
  case (Inr c)
  with assms show ?thesis
    by (cases "featured_link assets p") (auto simp: postFields_of_converted)
qed

text \<open>
  Claim C6. The images of a normalized post are the featured image, when the featured
  media id resolves, followed by the body images; the body images are the matches of
  the image pattern in the rendered HTML from left to right: their offsets increase,
  each matched tag stands at its offset and begins with \<open><img\<close>, and the link of the image
  is the text between two quotes of that tag. When a payload with a featured image is
  built, the link is looked up with the file name of the first image of the post, and
  it is the id of the first asset with that file name in \<open>assets\<close>. That list holds the
  published assets by the time their uploads settled, which is the order of the uploads
  when every upload takes less than the five seconds between two timers.
\<close>

theorem images_order_and_featured_lookup:
  "(getPostBodyImages apiData postData = Inr (out, images) \<longrightarrow>
      images =
        (if featured_media postData > 0
         then (case resolve_media apiData (featured_media postData) of
                 Some mediaObj \<Rightarrow> [featured_image postData mediaObj]
               | None \<Rightarrow> [])
         else []) @ body_images postData) \<and>
   map link (body_images postData) = map capture (exec_loop 0 0 (content_rendered postData)) \<and>
   sorted_wrt (<) (map index (exec_loop 0 0 (content_rendered postData))) \<and>
   (\<forall>m \<in> set (exec_loop 0 0 (content_rendered postData)).
      take (length (matched m)) (drop (index m) (content_rendered postData)) = matched m \<and>
      startsWith ''<img'' (matched m) \<and>
      (\<exists>pre q q' post. matched m = pre @ q # capture m @ q' # post \<and> is_quote q \<and> is_quote q' \<and>
          (\<forall>c \<in> set (capture m). \<not> is_quote c))) \<and>
   (featuredImage p > 0 \<and>
    postFields_of cfg td assetUrls (snd (createContentfulAssets env promises [])) p = Inr pf \<longrightarrow>
      (\<exists>img rest assetObj'.
          contentImages p = img # rest \<and>
          find (\<lambda>asset. assetFileName asset = after_last_slash (link img))
            (map (\<lambda>(settled, asset). asset_ref_of asset) (sort_key fst (published env promises)))
            = Some assetObj' \<and>
          pf ''featuredImage'' = Some (VLink (assetId assetObj')))) \<and>
   sorted (map fst (sort_key fst (published env promises))) \<and>
   set (sort_key fst (published env promises)) = set (published env promises) \<and>
   length (sort_key fst (published env promises)) = length (published env promises) \<and>
   ((\<forall>i. upload_time env i < 5000) \<longrightarrow>
      sort_key fst (published env promises) = published env promises)"
proof (intro conjI impI ballI)
  assume "getPostBodyImages apiData postData = Inr (out, images)"
  then show "images =
        (if featured_media postData > 0
         then (case resolve_media apiData (featured_media postData) of
                 Some mediaObj \<Rightarrow> [featured_image postData mediaObj]
               | None \<Rightarrow> [])
         else []) @ body_images postData"
    by (rule getPostBodyImages_order)
next
  show "map link (body_images postData) = map capture (exec_loop 0 0 (content_rendered postData))"
    by (simp add: body_images_def body_image_def)
next
  show "sorted_wrt (<) (map index (exec_loop 0 0 (content_rendered postData)))"
    by (rule exec_loop_sorted)
next
  fix m
  assume m: "m \<in> set (exec_loop 0 0 (content_rendered postData))"
  from exec_loop_at [OF m]
  show "take (length (matched m)) (drop (index m) (content_rendered postData)) = matched m"
    by simp
  from exec_loop_match [OF m] obtain t where t: "match_img t = Some (matched m, capture m)"
    by blast
  from match_img_shape [OF t] show "startsWith ''<img'' (matched m)"
    by (rule conjunct1)
  from match_img_shape [OF t]
  show "\<exists>pre q q' post. matched m = pre @ q # capture m @ q' # post \<and> is_quote q \<and> is_quote q' \<and>
          (\<forall>c \<in> set (capture m). \<not> is_quote c)"
    by (rule conjunct2)
next
  let ?assets = "snd (createContentfulAssets env promises [])"
  assume "featuredImage p > 0 \<and> postFields_of cfg td assetUrls ?assets p = Inr pf"
  then obtain l where "featured_link ?assets p = Inr l" and "pf ''featuredImage'' = Some l"
    using postFields_of_featured by blast
  with featured_link_Inr [of ?assets p l]
  show "\<exists>img rest assetObj'.
          contentImages p = img # rest \<and>
          find (\<lambda>asset. assetFileName asset = after_last_slash (link img))
            (map (\<lambda>(settled, asset). asset_ref_of asset) (sort_key fst (published env promises)))
            = Some assetObj' \<and>
          pf ''featuredImage'' = Some (VLink (assetId assetObj'))"
    by (auto simp: createContentfulAssets_def)
next
  show "sorted (map fst (sort_key fst (published env promises)))"
    by simp
next
  show "set (sort_key fst (published env promises)) = set (published env promises)"
    by simp
next
  show "length (sort_key fst (published env promises)) = length (published env promises)"
    by simp
next
  assume "\<forall>i. upload_time env i < 5000"
  then have "\<forall>i. upload_time env i \<le> 5000"
    by (simp add: less_imp_le)
  from published_sorted [OF this]
  show "sort_key fst (published env promises) = published env promises"
    by (rule sort_key_id_if_sorted)
qed

text \<open>
  The sample post: the featured picture comes before the two of the body. The three
  sample posts, each upload taking two seconds: the assets stand in the order of the
  uploads, and the third post, whose own picture is the third upload, is linked to the
  first, which has the same file name.
\<close>

lemma sample_body_links:
  "map capture (exec_loop 0 0 sample_html) = [''http://wp.example/up/a.png'', ''http://wp.example/up/b.png'']"
  by code_simp

theorem images_order_sample:
  "(\<exists>out images.
      getPostBodyImages (sample_api \<lparr>success = True, endpoint = ''media'', data = MediaData [sample_media]\<rparr>)
        (sample_raw_post 7 sample_html) = Inr (out, images) \<and>
      map link images =
        [''http://wp.example/up/hero.jpg'', ''http://wp.example/up/a.png'', ''http://wp.example/up/b.png''] \<and>
      map featured images = [True, False, False]) \<and>
   map matched (exec_loop 0 0 sample_html) =
     [''<img class='' @ [CHR 0x22] @ ''wide'' @ [CHR 0x22] @ '' src='' @ [CHR 0x22]
        @ ''http://wp.example/up/a.png'' @ [CHR 0x22] @ '' alt='' @ [CHR 0x22] @ ''First'' @ [CHR 0x22] @ ''>'',
      ''<img src='' @ [CHR 0x27] @ ''http://wp.example/up/b.png'' @ [CHR 0x27] @ ''/>''] \<and>
   (\<forall>i. upload_time (sample_env [] (\<lambda>i. 2000)) i < 5000) \<and>
   snd (createContentfulAssets (sample_env [] (\<lambda>i. 2000)) (buildContentfulAssets hero_posts) []) =
     [\<lparr>assetId = ''asset-0'', assetFileName = ''hero.jpg''\<rparr>,
      \<lparr>assetId = ''asset-1'', assetFileName = ''a.png''\<rparr>,
      \<lparr>assetId = ''asset-2'', assetFileName = ''hero.jpg''\<rparr>] \<and>
   featuredImage (sample_post 3 9 [sample_image ''http://wp.example/2021/hero.jpg'']) > 0 \<and>
   (\<exists>pf. postFields_of \<lparr>contentFormat = ''markdown''\<rparr> simple_turndown []
           (snd (createContentfulAssets (sample_env [] (\<lambda>i. 2000)) (buildContentfulAssets hero_posts) []))
           (sample_post 3 9 [sample_image ''http://wp.example/2021/hero.jpg'']) = Inr pf \<and>
         pf ''featuredImage'' = Some (VLink ''asset-0''))"
proof -
  let ?A = "sample_api \<lparr>success = True, endpoint = ''media'', data = MediaData [sample_media]\<rparr>"
  let ?R = "sample_raw_post 7 sample_html"
  let ?I = "featured_image ?R sample_media # body_images ?R"
  let ?P = "sample_post 3 9 [sample_image ''http://wp.example/2021/hero.jpg'']"
  let ?cfg = "\<lparr>contentFormat = ''markdown''\<rparr>"
  let ?env = "sample_env [] (\<lambda>i. 2000)"
  let ?promises = "buildContentfulAssets hero_posts"
  let ?assets = "snd (createContentfulAssets ?env ?promises [])"
  let ?refs = "[\<lparr>assetId = ''asset-0'', assetFileName = ''hero.jpg''\<rparr>,
                \<lparr>assetId = ''asset-1'', assetFileName = ''a.png''\<rparr>,
                \<lparr>assetId = ''asset-2'', assetFileName = ''hero.jpg''\<rparr>]"
  have e: "getPostBodyImages ?A ?R = Inr ([], ?I)"
    by (simp add: getPostBodyImages_def featured_images_def getApiDataType_def sample_api_def
          sample_raw_post_def sample_media_def)
  have fast: "\<forall>i. upload_time ?env i < 5000"
    by (simp add: sample_env_def)
  have pub: "published ?env ?promises =
      [(3000, \<lparr>sys_id = ''asset-0'', fields' = assetObj (sample_image ''http://wp.example/2020/hero.jpg'')\<rparr>),
       (8000, \<lparr>sys_id = ''asset-1'', fields' = assetObj (sample_image ''http://wp.example/up/a.png'')\<rparr>),
       (13000, \<lparr>sys_id = ''asset-2'', fields' = assetObj (sample_image ''http://wp.example/2021/hero.jpg'')\<rparr>)]"
    by (simp add: published_def List.map_filter_def hero_uploads)
  have conv: "convert_content ?cfg simple_turndown [] (VStr (content ?P)) = Inr (VStr ''Hello'')"
    by (simp add: simple_turndown_Hello sample_post_def)
  have pos: "featuredImage ?P > 0"
    by (simp add: sample_post_def)
  have ms: "map matched (exec_loop 0 0 sample_html) =
     [''<img class='' @ [CHR 0x22] @ ''wide'' @ [CHR 0x22] @ '' src='' @ [CHR 0x22]
        @ ''http://wp.example/up/a.png'' @ [CHR 0x22] @ '' alt='' @ [CHR 0x22] @ ''First'' @ [CHR 0x22] @ ''>'',
      ''<img src='' @ [CHR 0x27] @ ''http://wp.example/up/b.png'' @ [CHR 0x27] @ ''/>'']"
    by code_simp
  have name: "after_last_slash ''http://wp.example/2021/hero.jpg'' = ''hero.jpg''"
    by (simp add: after_last_slash_def)
  note t = images_order_and_featured_lookup
             [where apiData = ?A and postData = ?R and out = "[]" and images = ?I and p = ?P
                and cfg = ?cfg and td = simple_turndown and assetUrls = "[]" and env = ?env
                and promises = ?promises]
  from t fast have "sort_key fst (published ?env ?promises) = published ?env ?promises"
    by blast
  then have assets: "?assets = ?refs"
    by (simp add: createContentfulAssets_def pub asset_ref_of_def hero_names)
  have fl: "featured_link ?assets ?P = Inr (VLink ''asset-0'')"
    unfolding assets
    by (simp add: featured_link_def first_of_def sample_post_def sample_image_def
          last_js_split_slash name)
  from postFields_of_converted [OF conv, of ?assets] pos fl
  obtain pf where pf: "postFields_of ?cfg simple_turndown [] ?assets ?P = Inr pf"
    by simp
  from t e have links: "map link (body_images ?R) = map capture (exec_loop 0 0 (content_rendered ?R))"
    by blast
  then have a: "map link ?I =
      [''http://wp.example/up/hero.jpg'', ''http://wp.example/up/a.png'', ''http://wp.example/up/b.png'']"
    by (simp add: sample_body_links sample_raw_post_def featured_image_def sample_media_def)
  have "length (exec_loop 0 0 sample_html) = 2"
    using arg_cong [OF sample_body_links, of length] by simp
  then have b: "map featured ?I = [True, False, False]"
    by (simp add: sample_raw_post_def featured_image_def body_images_def body_image_def
          comp_def map_replicate_const numeral_2_eq_2)
  from t [of pf] pos pf obtain img rest a where
      "contentImages ?P = img # rest"
      "find (\<lambda>asset. assetFileName asset = after_last_slash (link img))
         (map (\<lambda>(settled, asset). asset_ref_of asset) (sort_key fst (published ?env ?promises))) = Some a"
      "pf ''featuredImage'' = Some (VLink (assetId a))"
    by blast
  moreover have "map (\<lambda>(settled, asset). asset_ref_of asset) (sort_key fst (published ?env ?promises)) = ?refs"
    using assets by (simp add: createContentfulAssets_def)
  ultimately have c: "pf ''featuredImage'' = Some (VLink ''asset-0'')"
    by (auto simp: sample_post_def sample_image_def name)
  show ?thesis
    by (intro conjI exI [of _ "[]"] exI [of _ ?I] exI [of _ pf])
       (rule e, rule a, rule b, rule ms, rule fast, rule assets, rule pos, rule pf, rule c)
qed

text \<open>
  With uploads of different lengths the first match is not the first in the order of the
  uploads. The three sample posts again; the first upload takes twelve seconds and the
  others one second each. All three are published. The file name of the picture of the
  first post is \<open>hero.jpg\<close>; the first published upload with that name is \<open>asset-0\<close>,
  but \<open>assets\<close> begins with the uploads that settled earlier, and the first post is linked
  to \<open>asset-2\<close>, the picture of the third post.
\<close>

theorem featured_lookup_by_completion:
  "map (map_option sys_id)
     (fst (createContentfulAssets (sample_env [] (\<lambda>i. if i = 0 then 12000 else 1000))
             (buildContentfulAssets hero_posts) []))
     = [Some ''asset-0'', Some ''asset-1'', Some ''asset-2''] \<and>
   map_option sys_id
     (find (\<lambda>asset. fileName (file' (fields' asset)) = after_last_slash ''http://wp.example/2020/hero.jpg'')
        (List.map_filter (\<lambda>outcome. outcome)
           (fst (createContentfulAssets (sample_env [] (\<lambda>i. if i = 0 then 12000 else 1000))
                   (buildContentfulAssets hero_posts) []))))
     = Some ''asset-0'' \<and>
   snd (createContentfulAssets (sample_env [] (\<lambda>i. if i = 0 then 12000 else 1000))
          (buildContentfulAssets hero_posts) [])
     = [\<lparr>assetId = ''asset-1'', assetFileName = ''a.png''\<rparr>,
        \<lparr>assetId = ''asset-2'', assetFileName = ''hero.jpg''\<rparr>,
        \<lparr>assetId = ''asset-0'', assetFileName = ''hero.jpg''\<rparr>] \<and>
   featuredImage (sample_post 1 7 [sample_image ''http://wp.example/2020/hero.jpg'']) = 7 \<and>
   (case postFields_of \<lparr>contentFormat = ''markdown''\<rparr> simple_turndown []
           (snd (createContentfulAssets (sample_env [] (\<lambda>i. if i = 0 then 12000 else 1000))
                   (buildContentfulAssets hero_posts) []))
           (sample_post 1 7 [sample_image ''http://wp.example/2020/hero.jpg'']) of
      Inl e \<Rightarrow> None
    | Inr pf \<Rightarrow> pf ''featuredImage'') = Some (VLink ''asset-2'')"
proof -
  let ?env = "sample_env [] (\<lambda>i. if i = 0 then 12000 else 1000)"
  let ?P = "sample_post 1 7 [sample_image ''http://wp.example/2020/hero.jpg'']"
  let ?cfg = "\<lparr>contentFormat = ''markdown''\<rparr>"
  let ?up = "createContentfulAssets ?env (buildContentfulAssets hero_posts) []"
  let ?refs = "[\<lparr>assetId = ''asset-1'', assetFileName = ''a.png''\<rparr>,
                \<lparr>assetId = ''asset-2'', assetFileName = ''hero.jpg''\<rparr>,
                \<lparr>assetId = ''asset-0'', assetFileName = ''hero.jpg''\<rparr>]"
  have name: "after_last_slash ''http://wp.example/2020/hero.jpg'' = ''hero.jpg''"
    by (simp add: after_last_slash_def)
  have outcomes: "fst ?up =
      [Some \<lparr>sys_id = ''asset-0'', fields' = assetObj (sample_image ''http://wp.example/2020/hero.jpg'')\<rparr>,
       Some \<lparr>sys_id = ''asset-1'', fields' = assetObj (sample_image ''http://wp.example/up/a.png'')\<rparr>,
       Some \<lparr>sys_id = ''asset-2'', fields' = assetObj (sample_image ''http://wp.example/2021/hero.jpg'')\<rparr>]"
    by (simp add: createContentfulAssets_def hero_uploads)
  have assets: "snd ?up = ?refs"
    by (simp add: createContentfulAssets_def published_def List.map_filter_def hero_uploads
          asset_ref_of_def hero_names)
  have conv: "convert_content ?cfg simple_turndown [] (VStr (content ?P)) = Inr (VStr ''Hello'')"
    by (simp add: simple_turndown_Hello sample_post_def)
  have pos: "featuredImage ?P = 7"
    by (simp add: sample_post_def)
  have fl: "featured_link (snd ?up) ?P = Inr (VLink ''asset-2'')"
    unfolding assets
    by (simp add: featured_link_def first_of_def sample_post_def sample_image_def
          last_js_split_slash name)
  have a: "map (map_option sys_id) (fst ?up) = [Some ''asset-0'', Some ''asset-1'', Some ''asset-2'']"
    by (simp add: outcomes)
  have b: "map_option sys_id
     (find (\<lambda>asset. fileName (file' (fields' asset)) = after_last_slash ''http://wp.example/2020/hero.jpg'')
        (List.map_filter (\<lambda>outcome. outcome) (fst ?up))) = Some ''asset-0''"
    by (simp add: outcomes List.map_filter_def hero_names name)
  have c: "(case postFields_of ?cfg simple_turndown [] (snd ?up) ?P of
              Inl e \<Rightarrow> None | Inr pf \<Rightarrow> pf ''featuredImage'') = Some (VLink ''asset-2'')"
    by (simp add: postFields_of_converted [OF conv] pos fl)
  show ?thesis
    by (intro conjI) (rule a, rule b, rule assets, rule pos, rule c)
qed

section \<open>Normalization and the featured image\<close>

lemma fieldData_thrown:
  "getPostBodyImages apiData postData = Inl e \<Longrightarrow> fieldData apiData postData = Inl e"
  by (simp add: fieldData_def case_prod_beta)

lemma fieldData_built:
  assumes "getPostBodyImages apiData postData = Inr (out3, images)"
  shows "\<exists>out p. fieldData apiData postData = Inr (out, p) \<and>
           id' p = wp_id postData \<and> type p = wp_type postData \<and>
           postTitle p = title_rendered postData \<and> slug p = wp_slug postData \<and>
           content p = content_rendered postData \<and>
           publishDate p = date_gmt postData @ ''+00:00'' \<and>
           featuredImage p = featured_media postData \<and>
           tags p = snd (getPostLabels apiData (wp_tags postData) ''tags'') \<and>
           categories p = snd (getPostLabels apiData (wp_categories postData) ''categories'') \<and>
           contentImages p = images \<and> set out3 \<subseteq> set out"
  using assms by (auto simp add: fieldData_def case_prod_beta)

lemma getPostBodyImages_not_found:
  assumes "featured_media postData > 0"
    and "filter (\<lambda>obj. endpoint obj = ''media'' \<and> success obj) apiData = mediaData # others"
    and "find (\<lambda>obj. media_id obj = featured_media postData) (media_records (data mediaData)) = None"
  shows "getPostBodyImages apiData postData =
           Inr ([''Warning: Featured media with ID '' @ string_of_int (featured_media postData)
                 @ '' not found for post: '' @ wp_slug postData], body_images postData)"
  using assms(3) by (simp add: getPostBodyImages_def featured_images_media [OF assms(1,2)])

text \<open>
  Claim C5 says that a post whose featured-media id resolves to no record of the fetched
  media collection is still normalized. That holds when a media collection was fetched
  (\<open>getPostBodyImages_not_found\<close>). When the media result is missing or empty, so that
  \<open>getApiDataType\<close> finds none, \<open>getPostBodyImages\<close> reads \<open>data\<close> of \<open>undefined\<close>:
  the normalization of the post throws, and with it \<open>mapData\<close>. \<open>getPostLabels\<close> guards
  the same lookup.
\<close>

theorem unresolved_featured_media_throws:
  "fieldData (sample_api \<lparr>success = False, endpoint = ''media'', data = MediaData []\<rparr>) (sample_raw_post 7 sample_html)
     = Inl (TypeError ''Cannot read properties of undefined (reading data)'') \<and>
   mapData (sample_api \<lparr>success = False, endpoint = ''media'', data = MediaData []\<rparr>)
     = Inl (Throw (TypeError ''Cannot read properties of undefined (reading data)''))"
proof -
  let ?A = "sample_api \<lparr>success = False, endpoint = ''media'', data = MediaData []\<rparr>"
  have "featured_images ?A (sample_raw_post 7 sample_html) =
          Inl (TypeError ''Cannot read properties of undefined (reading data)'')"
    by (rule featured_images_no_media) (simp_all add: sample_raw_post_def sample_api_def)
  then have "getPostBodyImages ?A (sample_raw_post 7 sample_html) =
          Inl (TypeError ''Cannot read properties of undefined (reading data)'')"
    by (simp add: getPostBodyImages_def)
  then have f: "fieldData ?A (sample_raw_post 7 sample_html) =
          Inl (TypeError ''Cannot read properties of undefined (reading data)'')"
    by (rule fieldData_thrown)
  have "filter (\<lambda>item. endpoint item = ''posts'' \<and> success item) ?A =
          [\<lparr>success = True, endpoint = ''posts'', data = PostData [sample_raw_post 7 sample_html]\<rparr>]"
    by (simp add: sample_api_def)
  with f have "mapData ?A = Inl (Throw (TypeError ''Cannot read properties of undefined (reading data)''))"
    by (simp add: mapData_def)
  with f show ?thesis
    by simp
qed

text \<open>With a media collection that lacks the id, the post is normalized with a warning.\<close>

lemma media_not_found_sample:
  "(case fieldData (sample_api \<lparr>success = True, endpoint = ''media'', data = MediaData [sample_media]\<rparr>)
           (sample_raw_post 8 sample_html) of
      Inl e \<Rightarrow> False
    | Inr (out, p) \<Rightarrow>
        map featured (contentImages p) = [False, False] \<and>
        out = [''Warning: tags with ID 2 not found'',
               ''Warning: Featured media with ID 8 not found for post: title''] \<and>
        tags p = [''Go'', ''Rust''] \<and> categories p = [''News''])"
  by code_simp

text \<open>
  Claim C4. A source post whose featured-media id is 0 is normalized, and the payload
  built for it has no field \<open>featuredImage\<close>: whenever the payload is built it lacks the
  field, and it is built unless the conversion of the content throws.
\<close>

theorem no_featuredImage_field_for_zero:
  assumes "featured_media postData = 0"
  shows "\<exists>out p. fieldData apiData postData = Inr (out, p) \<and>
           featuredImage p = 0 \<and>
           (\<forall>pf. postFields_of cfg td assetUrls assets p = Inr pf \<longrightarrow> pf ''featuredImage'' = None) \<and>
           (\<forall>e. postFields_of cfg td assetUrls assets p = Inl e \<longleftrightarrow>
                  convert_content cfg td assetUrls (VStr (content_rendered postData)) = Inl e)"
proof -
  from assms have "getPostBodyImages apiData postData = Inr ([], body_images postData)"
    by (simp add: getPostBodyImages_def featured_images_none)
  from fieldData_built [OF this] assms
  obtain out p where p: "fieldData apiData postData = Inr (out, p)"
      "featuredImage p = 0" "content p = content_rendered postData"
    by auto
  show ?thesis
  proof (intro exI conjI)
    show "fieldData apiData postData = Inr (out, p)" by (rule p)
    show "featuredImage p = 0" by (rule p)
    show "\<forall>pf. postFields_of cfg td assetUrls assets p = Inr pf \<longrightarrow> pf ''featuredImage'' = None"
    proof (cases "convert_content cfg td assetUrls (VStr (content p))")
      case (Inl e)
      then show ?thesis
        by (simp add: postFields_of_zero [OF p(2)])
    next
      case (Inr c)
      then show ?thesis
        by (simp add: postFields_of_zero [OF p(2)])
    qed
    show "\<forall>e. postFields_of cfg td assetUrls assets p = Inl e \<longleftrightarrow>
             convert_content cfg td assetUrls (VStr (content_rendered postData)) = Inl e"
      by (cases "convert_content cfg td assetUrls (VStr (content p))")
         (simp_all add: postFields_of_zero [OF p(2)] p(3) [symmetric])
  qed
qed


text \<open>A post without featured image and its payload.\<close>

theorem no_featuredImage_field_sample:
  "featured_media (sample_raw_post 0 ''Hello'') = 0 \<and>
   (\<exists>out p pf.
      fieldData (sample_api \<lparr>success = True, endpoint = ''media'', data = MediaData [sample_media]\<rparr>)
        (sample_raw_post 0 ''Hello'') = Inr (out, p) \<and>
      postFields_of \<lparr>contentFormat = ''markdown''\<rparr> simple_turndown [] [] p = Inr pf \<and>
      pf ''featuredImage'' = None)"
proof -
  let ?A = "sample_api \<lparr>success = True, endpoint = ''media'', data = MediaData [sample_media]\<rparr>"
  let ?R = "sample_raw_post 0 ''Hello''"
  let ?cfg = "\<lparr>contentFormat = ''markdown''\<rparr>"
  have z: "featured_media ?R = 0"
    by (simp add: sample_raw_post_def)
  from no_featuredImage_field_for_zero [OF z, of ?A ?cfg simple_turndown "[]" "[]"]
  obtain out p where fd: "fieldData ?A ?R = Inr (out, p)"
    and none: "\<forall>pf. postFields_of ?cfg simple_turndown [] [] p = Inr pf \<longrightarrow> pf ''featuredImage'' = None"
    and thrown: "\<forall>e. postFields_of ?cfg simple_turndown [] [] p = Inl e \<longleftrightarrow>
                   convert_content ?cfg simple_turndown [] (VStr (content_rendered ?R)) = Inl e"
    by blast
  have "\<forall>e. convert_content ?cfg simple_turndown [] (VStr (content_rendered ?R)) \<noteq> Inl e"
    by (simp add: simple_turndown_Hello sample_raw_post_def)
  with thrown have "\<forall>e. postFields_of ?cfg simple_turndown [] [] p \<noteq> Inl e"
    by simp
  then obtain pf where pf: "postFields_of ?cfg simple_turndown [] [] p = Inr pf"
    by (cases "postFields_of ?cfg simple_turndown [] [] p") auto
  with none have f: "pf ''featuredImage'' = None"
    by simp
  show ?thesis
    by (intro conjI exI [of _ out] exI [of _ p] exI [of _ pf]) (rule z, rule fd, rule pf, rule f)
qed

section \<open>A failed upload\<close>

text \<open>
  The uploads are isolated from each other: each request has its own outcome
  (\<open>createContentfulAssets_outcomes\<close>), and \<open>assets\<close> receives an entry for every request
  that was published, whatever happened to the others (\<open>assets_published\<close>,
  \<open>published_iff\<close>). A payload whose featured image has no asset cannot be built:
  \<open>assetObj\<close> is \<open>undefined\<close> and reading its \<open>assetId\<close> throws.
\<close>

lemma featured_link_missing:
  assumes "contentImages p = img # rest"
    and "find (\<lambda>asset. assetFileName asset = after_last_slash (link img)) assets = None"
  shows "featured_link assets p =
           Inl (TypeError ''Cannot read properties of undefined (reading assetId)'')"
proof (cases assets)
  case Nil
  then show ?thesis
    by (simp add: featured_link_def)
next
  case (Cons asset others)
  have "featured_link (asset # others) p =
          Inl (TypeError ''Cannot read properties of undefined (reading assetId)'')"
    using assms unfolding Cons featured_link_def first_of_filter last_js_split_slash
    by (simp add: first_of_def del: find.simps)
  with Cons show ?thesis
    by simp
qed

lemma postFields_of_missing:
  assumes "featuredImage p > 0"
    and "contentImages p = img # rest"
    and "find (\<lambda>asset. assetFileName asset = after_last_slash (link img)) assets = None"
    and "convert_content cfg td urls (VStr (content p)) = Inr c"
  shows "postFields_of cfg td urls assets p =
           Inl (TypeError ''Cannot read properties of undefined (reading assetId)'')"
  by (simp add: postFields_of_converted [OF assms(4)] assms(1) featured_link_missing [OF assms(2,3)])

text \<open>
  Claim C1 says that after a failed upload the entries are still published, without the
  featured-image link for the posts that needed the failed asset. The first half of the
  claim holds: the failure is caught and the other assets are recorded. The second does
  not: of the three sample posts, the upload for the second is rejected when it is
  published; \<open>assets\<close> holds the first and the third, and the payload of the second post
  throws, which ends \<open>createContentfulPosts\<close> before any entry is created.
\<close>

theorem failed_upload_stops_entries:
  "publish_all (sample_env [1] (\<lambda>i. 2000)) \<lparr>contentFormat = ''markdown''\<rparr> simple_turndown
     (Some [''//images.ctfassets.net/space/asset-0/hero.jpg'',
            ''//images.ctfassets.net/space/asset-2/hero.jpg''])
     hero_posts
   = (([Some \<lparr>sys_id = ''asset-0'', fields' = assetObj (sample_image ''http://wp.example/2020/hero.jpg'')\<rparr>,
        None,
        Some \<lparr>sys_id = ''asset-2'', fields' = assetObj (sample_image ''http://wp.example/2021/hero.jpg'')\<rparr>],
       [\<lparr>assetId = ''asset-0'', assetFileName = ''hero.jpg''\<rparr>,
        \<lparr>assetId = ''asset-2'', assetFileName = ''hero.jpg''\<rparr>]),
      Some (Inl (TypeError ''Cannot read properties of undefined (reading assetId)'')))"
proof -
  let ?env = "sample_env [1] (\<lambda>i. 2000)"
  let ?cfg = "\<lparr>contentFormat = ''markdown''\<rparr>"
  let ?urls = "[''//images.ctfassets.net/space/asset-0/hero.jpg'',
                ''//images.ctfassets.net/space/asset-2/hero.jpg'']"
  let ?refs = "[\<lparr>assetId = ''asset-0'', assetFileName = ''hero.jpg''\<rparr>,
                \<lparr>assetId = ''asset-2'', assetFileName = ''hero.jpg''\<rparr>]"
  let ?P1 = "sample_post 1 7 [sample_image ''http://wp.example/2020/hero.jpg'']"
  let ?P2 = "sample_post 2 8 [sample_image ''http://wp.example/up/a.png'']"
  let ?P3 = "sample_post 3 9 [sample_image ''http://wp.example/2021/hero.jpg'']"
  let ?up = "createContentfulAssets ?env (buildContentfulAssets hero_posts) []"
  have outcomes: "fst ?up =
      [Some \<lparr>sys_id = ''asset-0'', fields' = assetObj (sample_image ''http://wp.example/2020/hero.jpg'')\<rparr>,
       None,
       Some \<lparr>sys_id = ''asset-2'', fields' = assetObj (sample_image ''http://wp.example/2021/hero.jpg'')\<rparr>]"
    by (simp add: createContentfulAssets_def hero_uploads)
  have assets: "snd ?up = ?refs"
    by (simp add: createContentfulAssets_def published_def List.map_filter_def hero_uploads
          asset_ref_of_def hero_names)
  have names: "after_last_slash ''http://wp.example/2020/hero.jpg'' = ''hero.jpg''"
      "after_last_slash ''http://wp.example/up/a.png'' = ''a.png''"
    by (simp_all add: after_last_slash_def)
  have conv: "convert_content ?cfg simple_turndown ?urls (VStr (content (sample_post i f imgs)))
                = Inr (VStr ''Hello'')" for i f imgs
    by (simp add: simple_turndown_Hello sample_post_def)
  have fl: "featured_link ?refs ?P1 = Inr (VLink ''asset-0'')"
    by (simp add: featured_link_def first_of_def sample_post_def sample_image_def
          last_js_split_slash names)
  have "featuredImage ?P1 > 0"
    by (simp add: sample_post_def)
  with postFields_of_converted [OF conv, of ?refs] fl
  obtain pf where first: "postFields_of ?cfg simple_turndown ?urls ?refs ?P1 = Inr pf"
    by simp
  have second: "postFields_of ?cfg simple_turndown ?urls ?refs ?P2 =
                  Inl (TypeError ''Cannot read properties of undefined (reading assetId)'')"
    by (rule postFields_of_missing [where img = "sample_image ''http://wp.example/up/a.png''" and rest = "[]"])
       (simp_all add: sample_post_def sample_image_def names simple_turndown_Hello)
  have "build_posts ?cfg simple_turndown ?urls ?refs hero_posts =
          Inl (TypeError ''Cannot read properties of undefined (reading assetId)'')"
    by (simp add: hero_posts_def first second)
  then have "createContentfulPosts ?env ?cfg simple_turndown ?urls (snd ?up) hero_posts =
          Inl (TypeError ''Cannot read properties of undefined (reading assetId)'')"
    unfolding createContentfulPosts_def assets by simp
  then show ?thesis
    unfolding publish_all_def Let_def prod_eq_iff fst_conv snd_conv outcomes assets
    by (intro conjI refl) simp
qed

section \<open>Images without an asset\<close>

text \<open>The rule writes \<open>undefined\<close> as the target of an image that no asset matches.\<close>

lemma replaceWordPressImages_unmatched:
  assumes "find (\<lambda>asset. after_last_slash asset = after_last_slash u \<and> asset \<noteq> []) assets = None"
  shows "replaceWordPressImages assets alt (Some u) = Inr (markdown_image alt None)"
proof (cases assets)
  case Nil
  then show ?thesis
    by (simp add: replaceWordPressImages_def)
next
  case (Cons asset others)
  have "replaceWordPressImages (asset # others) alt (Some u) = Inr (markdown_image alt None)"
    using assms unfolding Cons replaceWordPressImages_def first_of_filter last_js_split_slash
    by (simp add: first_of_def del: find.simps)
  with Cons show ?thesis
    by simp
qed

text \<open>
  Claim C3 says that an image without asset leaves no trace in the converted content.
  In the script the rule writes \<^verbatim>\<open>![alt](undefined)\<close> for such an image. The flat mode
  returns the markdown as the library gives it; the structured mode removes the
  placeholders from the HTML text before the conversion, where there are none yet, and
  not from the markdown, so the placeholder becomes a paragraph. The document is one
  \<open>img\<close> element, with no asset at all and with an asset of another name.
\<close>

theorem undefined_image_survives:
  "strip_undefined sample_img_html = sample_img_html \<and>
   convert_content \<lparr>contentFormat = ''markdown''\<rparr> simple_turndown [] (VStr sample_img_html)
     = Inr (VStr ''![A](undefined)'') \<and>
   convert_content \<lparr>contentFormat = ''richtext''\<rparr> simple_turndown [] (VStr sample_img_html)
     = Inr (VRich (Node ''document'' [Node ''paragraph'' [TextNode ''![A](undefined)'']])) \<and>
   convert_content \<lparr>contentFormat = ''richtext''\<rparr> simple_turndown
       [''//images.ctfassets.net/space/1/other.jpg''] (VStr sample_img_html)
     = Inr (VRich (Node ''document'' [Node ''paragraph'' [TextNode ''![A](undefined)'']]))"
  by code_simp

section \<open>Paginated fetching\<close>

























end
